theory Spec2Isabelle
  imports Complex_Main
begin

section \<open>Text: JavaScript strings, trim and split\<close>

text \<open>
  A JavaScript string is modelled as a \<^typ>\<open>string\<close> (a list of characters). The two
  characters the line framer looks for are line feed and carriage return.
\<close>

definition LF :: char where
  "LF = CHR 0x0A"

definition CR :: char where
  "CR = CHR 0x0D"

text \<open>
  \<open>String.prototype.trim\<close> strips white space and line terminators from both ends. Within
  the characters a \<^typ>\<open>char\<close> holds these are tab, line feed, vertical tab, form feed,
  carriage return, space and no-break space.
\<close>

definition isWhiteSpace :: "char \<Rightarrow> bool" where
  "isWhiteSpace c \<longleftrightarrow>
     c = CHR 0x09 \<or> c = CHR 0x0A \<or> c = CHR 0x0B \<or> c = CHR 0x0C \<or> c = CHR 0x0D \<or>
     c = CHR 0x20 \<or> c = CHR 0xA0"

definition trim :: "string \<Rightarrow> string" where
  "trim s = rev (dropWhile isWhiteSpace (rev (dropWhile isWhiteSpace s)))"

text \<open>A string is truthy when it is not empty: \<open>if (line.trim())\<close>.\<close>

definition truthy :: "string \<Rightarrow> bool" where
  "truthy s \<longleftrightarrow> s \<noteq> []"

text \<open>
  \<open>buffer.split(/\r?\n/)\<close>: the text is cut at every match of the pattern, scanning from
  the left; a match is a line feed, together with the carriage return right before it when
  there is one. The result always has at least one segment (the empty string gives one
  empty segment).
\<close>

fun cons_first :: "char \<Rightarrow> string list \<Rightarrow> string list" where
  "cons_first c [] = [[c]]"
| "cons_first c (l # ls) = (c # l) # ls"

fun split_lines :: "string \<Rightarrow> string list" where
  "split_lines [] = [[]]"
| "split_lines [c] = (if c = LF then [[], []] else [[c]])"
| "split_lines (c # d # cs) =
     (if c = LF then [] # split_lines (d # cs)
      else if c = CR \<and> d = LF then [] # split_lines cs
      else cons_first c (split_lines (d # cs)))"

section \<open>The line framer: createLineTransformStream\<close>

text \<open>
  The closure variable \<open>buffer\<close> and the lines handed to \<open>controller.enqueue\<close>, in
  order. The method is the same text in \<open>SerialPerformanceTest\<close> and in
  \<open>SerialChannel\<close>.
\<close>

record line_stream =
  buffer :: string
  enqueued :: "string list"

definition createLineTransformStream :: line_stream where
  "createLineTransformStream = \<lparr>buffer = [], enqueued = []\<rparr>"

text \<open>
  \<open>transform(chunk, controller)\<close>. \<open>lines.pop() || ''\<close> is the last segment, or the
  empty string when there is none or it is empty; the loop enqueues the other segments that
  are not blank, untrimmed.
\<close>

definition transform :: "string \<Rightarrow> line_stream \<Rightarrow> line_stream" where
  "transform chunk st =
     (let buf = buffer st @ chunk;
          lines = split_lines buf;
          popped = (if lines = [] \<or> last lines = [] then [] else last lines);
          lines' = butlast lines
      in st\<lparr>buffer := popped,
            enqueued := enqueued st @ filter (\<lambda>line. truthy (trim line)) lines'\<rparr>)"

text \<open>\<open>flush(controller)\<close>: what is left in the buffer is enqueued when it is not blank.\<close>

definition flush :: "line_stream \<Rightarrow> line_stream" where
  "flush st =
     (if truthy (trim (buffer st)) then st\<lparr>enqueued := enqueued st @ [buffer st]\<rparr> else st)"

text \<open>Writing a sequence of chunks to the stream calls \<open>transform\<close> on each, in order.\<close>

definition feed :: "string list \<Rightarrow> line_stream \<Rightarrow> line_stream" where
  "feed chunks st = fold transform chunks st"

text \<open>
  The specification's words, for comparison: a text of lines joined by \<open>\n\<close> or
  \<open>\r\n\<close>. Every line but the last comes with its separator (\<open>True\<close> for \<open>\r\n\<close>).
  A line holds no line feed and does not end in a carriage return, and it is not blank.
\<close>

fun join_lines :: "(string \<times> bool) list \<Rightarrow> string \<Rightarrow> string" where
  "join_lines [] l = l"
| "join_lines ((x, crlf) # r) l = x @ (if crlf then [CR, LF] else [LF]) @ join_lines r l"

definition is_line :: "string \<Rightarrow> bool" where
  "is_line l \<longleftrightarrow> LF \<notin> set l \<and> truthy (trim l) \<and> last l \<noteq> CR"

text \<open>The text after the last line feed of a text.\<close>

definition after_last_LF :: "string \<Rightarrow> string" where
  "after_last_LF t = rev (takeWhile (\<lambda>c. c \<noteq> LF) (rev t))"

section \<open>The serial link as a channel sees it\<close>

text \<open>
  The browser's objects are the environment of a channel. What the model keeps of them:
  the results that successive \<open>lineReader.read()\<close> calls will deliver, the results of
  successive \<open>writer.write\<close> calls, whether \<open>cancel\<close>, the two \<open>releaseLock\<close> calls and
  \<open>port.close\<close> throw (\<open>Some message\<close>) or not, the calls made so far in order, the
  values \<open>Date.now()\<close> returns, and the messages passed to \<open>this.log\<close>.

  One method runs at a time, from its call to the point where it returns, throws or waits
  for ever; a read that an earlier method left pending is not part of the state. Reads take
  the events of the line stream in order.
\<close>

datatype read_event = Line string | Done | ReadError string

datatype api_call =
  WriterWrite string | ReaderRead | ReaderCancel | ReaderReleaseLock | WriterReleaseLock | PortClose

text \<open>
  How an awaited call ends: with a value, with a thrown error (its message), or never,
  when the promise stays pending (a read on a stream that delivers nothing more).
\<close>

datatype 'a completion = Normal 'a | Throw string | Pending

datatype severity = Info | Warning | Error | Debug | Success

text \<open>A number that a reduction over latencies can give, with the values of an empty reduction.\<close>

datatype jsnum = Number real | NaN | PosInfinity | NegInfinity

record reading =
  weight :: real
  rawWeight :: "real option"
  latency :: real
  timestamp :: int

record transport =
  incoming :: "read_event list"
  writeResults :: "string option list"
  cancelResult :: "string option"
  readerReleaseResult :: "string option"
  writerReleaseResult :: "string option"
  closeResult :: "string option"
  calls :: "api_call list"
  clock :: "nat \<Rightarrow> int"
  ticks :: nat
  logged :: "(severity \<times> string) list"

text \<open>
  The fields that \<open>SerialChannel\<close> and \<open>SerialPerformanceTest\<close> both have. A handle
  (\<open>port\<close>, \<open>lineReader\<close>, \<open>writer\<close>) is \<open>True\<close> when it is not \<open>null\<close>; a device
  string is \<open>None\<close> when it is \<open>null\<close>. In \<open>SerialChannel\<close> the lists of readings,
  latencies and time stamps and \<open>readingsPerSecond\<close> live under \<open>this.metrics\<close>.
  \<open>scheduledRestarts\<close> counts the \<open>setTimeout\<close> calls that reschedule the read loop.
\<close>

record channel = transport +
  port :: bool
  lineReader :: bool
  writer :: bool
  isConnected :: bool
  isReading :: bool
  deviceId :: "string option"
  deviceCapacity :: "string option"
  deviceUnits :: "string option"
  readings :: "reading list"
  latencies :: "real list"
  readingsInLastSecond :: "int list"
  readingsPerSecond :: nat
  weightWindow :: "real list"
  scheduledRestarts :: nat

record serial_channel = channel +
  totalReadings :: nat
  avgLatency :: jsnum
  minLatency :: jsnum
  maxLatency :: jsnum

text \<open>
  \<open>SerialPerformanceTest\<close> keeps no latency statistics: \<open>updateMetrics\<close> writes them to
  the page. The \<open>Text\<close> fields are the \<open>textContent\<close> of the device elements; the
  \<open>Shown\<close> fields are the numbers whose \<open>toFixed(1)\<close> rendering is written.
\<close>

record serial_performance_test = channel +
  currentMethod :: string
  intervalId :: "nat option"
  deviceIdText :: string
  deviceCapacityText :: string
  deviceUnitsText :: string
  avgLatencyShown :: jsnum
  minLatencyShown :: jsnum
  maxLatencyShown :: jsnum
  totalReadingsShown :: nat

text \<open>The constructors set \<open>this.windowSize = 5\<close> and nothing assigns it again.\<close>

definition windowSize :: nat where
  "windowSize = 5"

subsection \<open>Sequencing awaited calls\<close>

definition andThen ::
  "'a completion \<times> 's \<Rightarrow> ('a \<Rightarrow> 's \<Rightarrow> 'b completion \<times> 's) \<Rightarrow> 'b completion \<times> 's" where
  "andThen r f =
     (case r of (Normal v, s) \<Rightarrow> f v s | (Throw m, s) \<Rightarrow> (Throw m, s) | (Pending, s) \<Rightarrow> (Pending, s))"

text \<open>\<open>try { ... } catch (error) { ... }\<close>: only a thrown error reaches the handler.\<close>

definition tryCatch ::
  "'a completion \<times> 's \<Rightarrow> (string \<Rightarrow> 's \<Rightarrow> 'a completion \<times> 's) \<Rightarrow> 'a completion \<times> 's" where
  "tryCatch r h = (case r of (Throw m, s) \<Rightarrow> h m s | (Normal v, s) \<Rightarrow> (Normal v, s) | (Pending, s) \<Rightarrow> (Pending, s))"

subsection \<open>Calls into the environment\<close>

definition logMessage :: "string \<Rightarrow> severity \<Rightarrow> 'a transport_scheme \<Rightarrow> 'a transport_scheme" where
  "logMessage message type s = s\<lparr>logged := logged s @ [(type, message)]\<rparr>"

definition Date_now :: "'a transport_scheme \<Rightarrow> int \<times> 'a transport_scheme" where
  "Date_now s = (clock s (ticks s), s\<lparr>ticks := Suc (ticks s)\<rparr>)"

text \<open>A call that throws or returns nothing of interest: it is recorded, then it ends.\<close>

definition apiCall ::
  "api_call \<Rightarrow> string option \<Rightarrow> 'a transport_scheme \<Rightarrow> unit completion \<times> 'a transport_scheme" where
  "apiCall c result s =
     (case result of
        None \<Rightarrow> (Normal (), s\<lparr>calls := calls s @ [c]\<rparr>)
      | Some m \<Rightarrow> (Throw m, s\<lparr>calls := calls s @ [c]\<rparr>))"

text \<open>\<open>await this.writer.write(data)\<close>: the next write result, success when none is listed.\<close>

definition writer_write :: "string \<Rightarrow> 'a transport_scheme \<Rightarrow> unit completion \<times> 'a transport_scheme" where
  "writer_write data s =
     (case writeResults s of
        [] \<Rightarrow> apiCall (WriterWrite data) None s
      | r # rs \<Rightarrow> apiCall (WriterWrite data) r (s\<lparr>writeResults := rs\<rparr>))"

text \<open>
  \<open>await this.lineReader.read()\<close>: the next event of the line stream. \<open>Some value\<close> is
  \<open>{value, done: false}\<close> and \<open>None\<close> is \<open>{done: true}\<close>.
\<close>

definition lineReader_read :: "'a transport_scheme \<Rightarrow> string option completion \<times> 'a transport_scheme" where
  "lineReader_read s =
     (case incoming s of
        [] \<Rightarrow> (Pending, s\<lparr>calls := calls s @ [ReaderRead]\<rparr>)
      | Line value # rest \<Rightarrow> (Normal (Some value), s\<lparr>calls := calls s @ [ReaderRead], incoming := rest\<rparr>)
      | Done # rest \<Rightarrow> (Normal None, s\<lparr>calls := calls s @ [ReaderRead], incoming := rest\<rparr>)
      | ReadError m # rest \<Rightarrow> (Throw m, s\<lparr>calls := calls s @ [ReaderRead], incoming := rest\<rparr>))"

section \<open>Methods that are the same text in both classes\<close>

text \<open>
  \<open>readResponse()\<close>. The result is \<open>null\<close> (\<open>None\<close>) when the stream is done, else the
  trimmed line, or the empty string for a falsy value.
\<close>

definition readResponse :: "'a channel_scheme \<Rightarrow> string option completion \<times> 'a channel_scheme" where
  "readResponse s =
     (if \<not> lineReader s then (Throw ''Line reader not available'', s)
      else
        tryCatch
          (andThen (lineReader_read s) (\<lambda>r s1.
             case r of
               None \<Rightarrow> (Normal None, s1)
             | Some value \<Rightarrow> (Normal (Some (if truthy value then trim value else [])), s1)))
          (\<lambda>m s1. (Throw m, logMessage (''Error reading response: '' @ m) Error s1)))"

text \<open>
  \<open>filterWithMedian(newWeight)\<close>: push, drop the oldest when the window is longer than
  \<open>windowSize\<close>, sort a copy ascending, return the element at index
  \<open>floor(length / 2)\<close>. The window is never empty there, so the index is in range.
\<close>

definition filterWithMedian :: "real \<Rightarrow> 'a channel_scheme \<Rightarrow> real \<times> 'a channel_scheme" where
  "filterWithMedian newWeight s =
     (let pushed = weightWindow s @ [newWeight];
          window = (if length pushed > windowSize then tl pushed else pushed);
          sorted = sort window
      in (sorted ! (length sorted div 2), s\<lparr>weightWindow := window\<rparr>))"

text \<open>\<open>updateReadingsPerSecond()\<close>.\<close>

definition updateReadingsPerSecond :: "'a channel_scheme \<Rightarrow> 'a channel_scheme" where
  "updateReadingsPerSecond s =
     (case Date_now s of (now, s1) \<Rightarrow>
        let kept = filter (\<lambda>timestamp. now - timestamp < 1000) (readingsInLastSecond s1)
        in s1\<lparr>readingsInLastSecond := kept, readingsPerSecond := length kept\<rparr>)"




text \<open>The latency statistics of \<open>updateMetrics()\<close>, as JavaScript computes them.\<close>

definition average :: "real list \<Rightarrow> jsnum" where
  "average xs = (if xs = [] then NaN else Number (foldl (+) 0 xs / real (length xs)))"

definition Math_min :: "real list \<Rightarrow> jsnum" where
  "Math_min xs = (case xs of [] \<Rightarrow> PosInfinity | x # r \<Rightarrow> Number (fold min r x))"

definition Math_max :: "real list \<Rightarrow> jsnum" where
  "Math_max xs = (case xs of [] \<Rightarrow> NegInfinity | x # r \<Rightarrow> Number (fold max r x))"

text \<open>\<open>`${value}`\<close> and \<open>element.textContent = value\<close> for a string that may be \<open>null\<close>.\<close>

definition template :: "string option \<Rightarrow> string" where
  "template v = (case v of None \<Rightarrow> ''null'' | Some x \<Rightarrow> x)"

definition textContent :: "string option \<Rightarrow> string" where
  "textContent v = (case v of None \<Rightarrow> [] | Some x \<Rightarrow> x)"

text \<open>\<open>if (xs.length > 1000) xs.shift()\<close>.\<close>

definition keepLast1000 :: "'b list \<Rightarrow> 'b list" where
  "keepLast1000 xs = (if length xs > 1000 then tl xs else xs)"

section \<open>SerialChannel (the multi-channel page)\<close>

text \<open>\<open>sendCommand(command)\<close>: write the command and a carriage return, then read one line.\<close>

definition sc_sendCommand ::
  "string \<Rightarrow> serial_channel \<Rightarrow> string option completion \<times> serial_channel" where
  "sc_sendCommand command s =
     (if \<not> writer s then (Throw ''Writer not available'', s)
      else
        tryCatch
          (andThen (writer_write (command @ [CR]) s) (\<lambda>_ s1.
             readResponse (logMessage (''Command sent: '' @ command) Debug s1)))
          (\<lambda>m s1. (Throw m, logMessage (''Error sending command '' @ command @ '': '' @ m) Error s1)))"

text \<open>\<open>getDeviceInfo()\<close>.\<close>

definition sc_getDeviceInfo :: "serial_channel \<Rightarrow> unit completion \<times> serial_channel" where
  "sc_getDeviceInfo s =
     tryCatch
       (andThen (sc_sendCommand ''id'' s) (\<lambda>deviceId' s1.
        andThen (sc_sendCommand ''slc''
                   (logMessage (''Device ID: '' @ template deviceId') Info (s1\<lparr>deviceId := deviceId'\<rparr>)))
          (\<lambda>capacity s2.
        andThen (sc_sendCommand ''units'' (s2\<lparr>deviceCapacity := capacity\<rparr>)) (\<lambda>units s3.
          (Normal (), s3\<lparr>deviceUnits := units\<rparr>)))))
       (\<lambda>m s1. (Normal (),
          (logMessage (''Error getting device info: '' @ m) Error s1)\<lparr>deviceId := Some ''Error''\<rparr>))"



text \<open>\<open>processReading(weight, latency)\<close>; the writes to the page are left out.\<close>

definition sc_processReading :: "real \<Rightarrow> real \<Rightarrow> serial_channel \<Rightarrow> serial_channel" where
  "sc_processReading weight' latency' s =
     (case Date_now s of (timestamp', s1) \<Rightarrow>
        updateReadingsPerSecond
          (s1\<lparr>readings := keepLast1000 (readings s1 @
                  [\<lparr>weight = weight', rawWeight = None, latency = latency', timestamp = timestamp'\<rparr>]),
              latencies := keepLast1000 (latencies s1 @ [latency']),
              readingsInLastSecond := readingsInLastSecond s1 @ [timestamp']\<rparr>))"

text \<open>\<open>updateMetrics()\<close>.\<close>

definition sc_updateMetrics :: "serial_channel \<Rightarrow> serial_channel" where
  "sc_updateMetrics s =
     (if length (readings s) = 0 then s
      else s\<lparr>avgLatency := average (latencies s),
             minLatency := Math_min (latencies s),
             maxLatency := Math_max (latencies s),
             totalReadings := length (readings s)\<rparr>)"

text \<open>\<open>clearData()\<close>.\<close>

definition sc_clearData :: "serial_channel \<Rightarrow> serial_channel" where
  "sc_clearData s =
     sc_updateMetrics
       (s\<lparr>readings := [], latencies := [], readingsInLastSecond := [], readingsPerSecond := 0,
          weightWindow := []\<rparr>)"

text \<open>
  \<open>readWeightContinuous()\<close>. \<open>parseFloat\<close> is the browser's, a parameter here: \<open>None\<close>
  when it gives \<open>NaN\<close>. First the body of the loop for one line that was read.
\<close>

definition sc_processLine :: "(string \<Rightarrow> real option) \<Rightarrow> string \<Rightarrow> serial_channel \<Rightarrow> serial_channel" where
  "sc_processLine parseFloat value s =
     (if truthy value \<and> truthy (trim value) then
        (case parseFloat (trim value) of
           None \<Rightarrow> s
         | Some weight' \<Rightarrow>
             (case filterWithMedian weight' s of (filteredWeight, s1) \<Rightarrow>
                sc_updateMetrics (sc_processReading filteredWeight 0 s1)))
      else s)"

text \<open>
  The \<open>while (this.isReading)\<close> loop over the events the stream still delivers. Each turn
  reads one event; the loop ends when the flag is off, at the end of the stream, with a
  thrown read error, or it waits for ever when nothing more arrives.
\<close>

fun sc_readLoop ::
  "(string \<Rightarrow> real option) \<Rightarrow> read_event list \<Rightarrow> serial_channel \<Rightarrow> unit completion \<times> serial_channel" where
  "sc_readLoop parseFloat [] s =
     (if \<not> isReading s then (Normal (), s\<lparr>incoming := []\<rparr>)
      else (Pending, s\<lparr>incoming := [], calls := calls s @ [ReaderRead]\<rparr>))"
| "sc_readLoop parseFloat (ev # rest) s =
     (if \<not> isReading s then (Normal (), s\<lparr>incoming := ev # rest\<rparr>)
      else
        (case ev of
           Done \<Rightarrow>
             (Normal (), logMessage ''Serial stream ended'' Warning
                (s\<lparr>incoming := rest, calls := calls s @ [ReaderRead]\<rparr>))
         | ReadError m \<Rightarrow> (Throw m, s\<lparr>incoming := rest, calls := calls s @ [ReaderRead]\<rparr>)
         | Line value \<Rightarrow>
             sc_readLoop parseFloat rest
               (sc_processLine parseFloat value
                  (s\<lparr>incoming := rest, calls := calls s @ [ReaderRead]\<rparr>))))"

definition sc_readWeightContinuous ::
  "(string \<Rightarrow> real option) \<Rightarrow> serial_channel \<Rightarrow> unit completion \<times> serial_channel" where
  "sc_readWeightContinuous parseFloat s =
     tryCatch
       (andThen (sc_sendCommand ''wc'' s) (\<lambda>_ s1.
          (let s2 = logMessage ''Started continuous weight reading with wc command'' Info s1
           in sc_readLoop parseFloat (incoming s2) s2)))
       (\<lambda>m s1.
          (let s2 = logMessage (''Error in readWeightContinuous: '' @ m) Error s1
           in (Normal (),
               if isReading s2 then s2\<lparr>scheduledRestarts := Suc (scheduledRestarts s2)\<rparr> else s2)))"

text \<open>The constructor: a channel that is not connected, over a given environment.\<close>

definition SerialChannel :: "transport \<Rightarrow> serial_channel" where
  "SerialChannel io =
     \<lparr>incoming = incoming io, writeResults = writeResults io, cancelResult = cancelResult io,
      readerReleaseResult = readerReleaseResult io, writerReleaseResult = writerReleaseResult io,
      closeResult = closeResult io, calls = calls io, clock = clock io, ticks = ticks io,
      logged = logged io,
      port = False, lineReader = False, writer = False, isConnected = False, isReading = False,
      deviceId = None, deviceCapacity = None, deviceUnits = None,
      readings = [], latencies = [], readingsInLastSecond = [], readingsPerSecond = 0,
      weightWindow = [], scheduledRestarts = 0,
      totalReadings = 0, avgLatency = Number 0, minLatency = Number 0, maxLatency = Number 0\<rparr>"

section \<open>SerialPerformanceTest (the single-channel page)\<close>

text \<open>
  \<open>sendCommand(command)\<close>: while reading in the \<open>onread\<close> method the command is only
  written and the answer is \<open>'sent'\<close>; otherwise one line is read as the response.
\<close>

definition spt_sendCommand ::
  "string \<Rightarrow> serial_performance_test \<Rightarrow> string option completion \<times> serial_performance_test" where
  "spt_sendCommand command s =
     (if \<not> writer s then (Throw ''Writer not available'', s)
      else
        tryCatch
          (if isReading s \<and> currentMethod s = ''onread'' then
             andThen
               (writer_write (command @ [CR])
                  (logMessage (''Command sent during continuous reading: '' @ command) Debug s))
               (\<lambda>_ s1. (Normal (Some ''sent''), s1))
           else
             andThen (writer_write (command @ [CR]) s) (\<lambda>_ s1.
               readResponse (logMessage (''Command sent: '' @ command) Debug s1)))
          (\<lambda>m s1. (Throw m, logMessage (''Error sending command '' @ command @ '': '' @ m) Error s1)))"

text \<open>\<open>getDeviceInfo()\<close>: the handler writes \<open>'Error'\<close> to the three elements of the page.\<close>

definition spt_getDeviceInfo ::
  "serial_performance_test \<Rightarrow> unit completion \<times> serial_performance_test" where
  "spt_getDeviceInfo s =
     tryCatch
       (andThen (spt_sendCommand ''id'' s) (\<lambda>deviceId' s1.
        andThen (spt_sendCommand ''slc''
                   (logMessage (''Device ID: '' @ template deviceId') Info
                      (s1\<lparr>deviceId := deviceId', deviceIdText := textContent deviceId'\<rparr>)))
          (\<lambda>capacity s2.
        andThen (spt_sendCommand ''units''
                   (logMessage (''Device Capacity: '' @ template capacity) Info
                      (s2\<lparr>deviceCapacity := capacity, deviceCapacityText := textContent capacity\<rparr>)))
          (\<lambda>units s3.
          (Normal (), logMessage (''Device Units: '' @ template units) Info
             (s3\<lparr>deviceUnits := units, deviceUnitsText := textContent units\<rparr>))))))
       (\<lambda>m s1. (Normal (),
          (logMessage (''Error getting device info: '' @ m) Error s1)
            \<lparr>deviceIdText := ''Error'', deviceCapacityText := ''Error'', deviceUnitsText := ''Error''\<rparr>))"



text \<open>\<open>updateMetrics()\<close>.\<close>

definition spt_updateMetrics :: "serial_performance_test \<Rightarrow> serial_performance_test" where
  "spt_updateMetrics s =
     (if length (readings s) = 0 then s
      else s\<lparr>avgLatencyShown := average (latencies s),
             minLatencyShown := Math_min (latencies s),
             maxLatencyShown := Math_max (latencies s),
             totalReadingsShown := length (readings s)\<rparr>)"

text \<open>
  \<open>processReading(weight, latency)\<close>: the median filter runs here; the chart and the raw
  data log of the page are left out.
\<close>

definition spt_processReading ::
  "real \<Rightarrow> real \<Rightarrow> serial_performance_test \<Rightarrow> serial_performance_test" where
  "spt_processReading weight' latency' s =
     (case Date_now s of (timestamp', s1) \<Rightarrow>
      case filterWithMedian weight' s1 of (filteredWeight, s2) \<Rightarrow>
        spt_updateMetrics
          (updateReadingsPerSecond
             (s2\<lparr>readings := keepLast1000 (readings s2 @
                     [\<lparr>weight = filteredWeight, rawWeight = Some weight', latency = latency',
                       timestamp = timestamp'\<rparr>]),
                 latencies := keepLast1000 (latencies s2 @ [latency']),
                 readingsInLastSecond := readingsInLastSecond s2 @ [timestamp']\<rparr>)))"

text \<open>\<open>clearData()\<close>.\<close>

definition spt_clearData :: "serial_performance_test \<Rightarrow> serial_performance_test" where
  "spt_clearData s =
     logMessage ''Data cleared'' Info
       (spt_updateMetrics
          (s\<lparr>readings := [], latencies := [], readingsInLastSecond := [],
             readingsPerSecond := 0, weightWindow := []\<rparr>))"

text \<open>\<open>readWeightOnce()\<close>, the \<open>wc\<close> method: the body of its loop, the loop, the method.\<close>

definition spt_processLine ::
  "(string \<Rightarrow> real option) \<Rightarrow> string \<Rightarrow> serial_performance_test \<Rightarrow> serial_performance_test" where
  "spt_processLine parseFloat value s =
     (if truthy value \<and> truthy (trim value) then
        (case parseFloat (trim value) of
           None \<Rightarrow> s
         | Some weight' \<Rightarrow> spt_processReading weight' 0 s)
      else s)"

fun spt_readLoop ::
  "(string \<Rightarrow> real option) \<Rightarrow> read_event list \<Rightarrow> serial_performance_test \<Rightarrow>
     unit completion \<times> serial_performance_test" where
  "spt_readLoop parseFloat [] s =
     (if \<not> isReading s then (Normal (), s\<lparr>incoming := []\<rparr>)
      else (Pending, s\<lparr>incoming := [], calls := calls s @ [ReaderRead]\<rparr>))"
| "spt_readLoop parseFloat (ev # rest) s =
     (if \<not> isReading s then (Normal (), s\<lparr>incoming := ev # rest\<rparr>)
      else
        (case ev of
           Done \<Rightarrow>
             (Normal (), logMessage ''Serial stream ended'' Warning
                (s\<lparr>incoming := rest, calls := calls s @ [ReaderRead]\<rparr>))
         | ReadError m \<Rightarrow> (Throw m, s\<lparr>incoming := rest, calls := calls s @ [ReaderRead]\<rparr>)
         | Line value \<Rightarrow>
             spt_readLoop parseFloat rest
               (spt_processLine parseFloat value
                  (s\<lparr>incoming := rest, calls := calls s @ [ReaderRead]\<rparr>))))"

definition spt_readWeightOnce ::
  "(string \<Rightarrow> real option) \<Rightarrow> serial_performance_test \<Rightarrow> unit completion \<times> serial_performance_test" where
  "spt_readWeightOnce parseFloat s =
     tryCatch
       (andThen (spt_sendCommand ''wc'' s) (\<lambda>_ s1.
          (let s2 = logMessage ''Started continuous weight reading with wc command'' Info s1
           in spt_readLoop parseFloat (incoming s2) s2)))
       (\<lambda>m s1.
          (let s2 = logMessage (''Error in readWeightOnce: '' @ m) Error s1
           in (Normal (),
               if isReading s2 then s2\<lparr>scheduledRestarts := Suc (scheduledRestarts s2)\<rparr> else s2)))"

text \<open>
  The constructor. It reads the clock once (\<open>this.lastSecondUpdate = Date.now()\<close>, a
  field that nothing reads afterwards). The texts and numbers shown on the page before the
  script writes them belong to the page; they are taken as empty and 0.
\<close>

definition SerialPerformanceTest :: "transport \<Rightarrow> serial_performance_test" where
  "SerialPerformanceTest io =
     \<lparr>incoming = incoming io, writeResults = writeResults io, cancelResult = cancelResult io,
      readerReleaseResult = readerReleaseResult io, writerReleaseResult = writerReleaseResult io,
      closeResult = closeResult io, calls = calls io, clock = clock io, ticks = Suc (ticks io),
      logged = logged io,
      port = False, lineReader = False, writer = False, isConnected = False, isReading = False,
      deviceId = None, deviceCapacity = None, deviceUnits = None,
      readings = [], latencies = [], readingsInLastSecond = [], readingsPerSecond = 0,
      weightWindow = [], scheduledRestarts = 0,
      currentMethod = ''onread'', intervalId = None,
      deviceIdText = [], deviceCapacityText = [], deviceUnitsText = [],
      avgLatencyShown = Number 0, minLatencyShown = Number 0, maxLatencyShown = Number 0,
      totalReadingsShown = 0\<rparr>"

section \<open>Example environments and the specification's notions\<close>

text \<open>An environment in which nothing fails and nothing arrives; the clock stands at 0.\<close>

definition quiet :: transport where
  "quiet =
     \<lparr>incoming = [], writeResults = [], cancelResult = None, readerReleaseResult = None,
      writerReleaseResult = None, closeResult = None, calls = [], clock = (\<lambda>n. 0), ticks = 0,
      logged = []\<rparr>"

text \<open>
  The state \<open>connect()\<close> leaves before the handshake: the three handles are set and
  \<open>isConnected\<close> is \<open>true\<close>.
\<close>

definition connected :: "'a channel_scheme \<Rightarrow> 'a channel_scheme" where
  "connected s = s\<lparr>port := True, lineReader := True, writer := True, isConnected := True\<rparr>"



text \<open>The specification's count: the time stamps in the closed interval from \<open>now - 1000\<close> to \<open>now\<close>.\<close>

definition in_closed_second :: "int \<Rightarrow> int \<Rightarrow> bool" where
  "in_closed_second now t \<longleftrightarrow> now - 1000 \<le> t \<and> t \<le> now"

definition closed_second_count :: "int \<Rightarrow> int list \<Rightarrow> nat" where
  "closed_second_count now ts = length (filter (in_closed_second now) ts)"

text \<open>What \<open>updateReadingsPerSecond\<close> keeps: \<open>now - timestamp < 1000\<close>.\<close>

definition younger_than_second :: "int \<Rightarrow> int \<Rightarrow> bool" where
  "younger_than_second now t \<longleftrightarrow> now - t < 1000"

text \<open>The time stamps in the half-open interval from \<open>now - 1000\<close> (excluded) to \<open>now\<close>.\<close>

definition in_last_second :: "int \<Rightarrow> int \<Rightarrow> bool" where
  "in_last_second now t \<longleftrightarrow> now - 1000 < t \<and> t \<le> now"

text \<open>A run of accepted readings, each a weight and a latency, in order.\<close>

fun sc_processAll :: "(real \<times> real) list \<Rightarrow> serial_channel \<Rightarrow> serial_channel" where
  "sc_processAll [] s = s"
| "sc_processAll ((w, l) # rs) s = sc_processAll rs (sc_processReading w l s)"

fun spt_processAll :: "(real \<times> real) list \<Rightarrow> serial_performance_test \<Rightarrow> serial_performance_test" where
  "spt_processAll [] s = s"
| "spt_processAll ((w, l) # rs) s = spt_processAll rs (spt_processReading w l s)"

text \<open>
  The clock values of \<open>n\<close> successive \<open>processReading\<close> calls: each call reads the clock
  twice, first for the time stamp of the reading, then for \<open>now\<close> in
  \<open>updateReadingsPerSecond\<close>.
\<close>

definition clock_readings :: "'a transport_scheme \<Rightarrow> nat \<Rightarrow> (int \<times> int) list" where
  "clock_readings s n = map (\<lambda>i. (clock s (ticks s + 2 * i), clock s (ticks s + 2 * i + 1))) [0..<n]"

text \<open>One insertion on the list of time stamps: push the time stamp, keep the young ones.\<close>

definition retain :: "int list \<Rightarrow> int \<times> int \<Rightarrow> int list" where
  "retain ts p = filter (younger_than_second (snd p)) (ts @ [fst p])"

text \<open>An environment where the clock shows 0, 500, 1000, ... for successive readings.\<close>

definition half_seconds :: transport where
  "half_seconds = quiet\<lparr>clock := (\<lambda>n. 500 * int (n div 2))\<rparr>"

text \<open>
  States in which every recorded latency is 0, as after readings of the \<open>wc\<close> method only;
  the two rings are empty together.
\<close>

definition only_zero_latencies :: "'a channel_scheme \<Rightarrow> bool" where
  "only_zero_latencies s \<longleftrightarrow>
     list_all (\<lambda>l. l = 0) (latencies s) \<and> list_all (\<lambda>r. latency r = 0) (readings s) \<and>
     ((readings s = []) = (latencies s = []))"

definition sc_zero_metrics :: "serial_channel \<Rightarrow> bool" where
  "sc_zero_metrics s \<longleftrightarrow>
     avgLatency s = Number 0 \<and> minLatency s = Number 0 \<and> maxLatency s = Number 0"

definition spt_zero_metrics :: "serial_performance_test \<Rightarrow> bool" where
  "spt_zero_metrics s \<longleftrightarrow>
     avgLatencyShown s = Number 0 \<and> minLatencyShown s = Number 0 \<and> maxLatencyShown s = Number 0"

text \<open>The rings and the latency statistics of a state, to say that a step recorded nothing.\<close>

definition sc_stats :: "serial_channel \<Rightarrow> reading list \<times> real list \<times> jsnum \<times> jsnum \<times> jsnum" where
  "sc_stats s = (readings s, latencies s, avgLatency s, minLatency s, maxLatency s)"

definition spt_stats :: "serial_performance_test \<Rightarrow> reading list \<times> real list \<times> jsnum \<times> jsnum \<times> jsnum" where
  "spt_stats s = (readings s, latencies s, avgLatencyShown s, minLatencyShown s, maxLatencyShown s)"

text \<open>A \<open>parseFloat\<close> for the examples: it knows two lines and gives \<open>NaN\<close> on the others.\<close>

definition parseFloat_example :: "string \<Rightarrow> real option" where
  "parseFloat_example v =
     (if v = ''1.5'' then Some (3 / 2) else if v = ''2.5'' then Some (5 / 2) else None)"

text \<open>The lines of a device that answers \<open>wc\<close> and then streams weights and some noise.\<close>

definition streaming :: transport where
  "streaming =
     quiet\<lparr>incoming := [Line ''OK'', Line '' 1.5 '', Line ''noise'', Line ''2.5'']\<rparr>"


text \<open>The connection flag with the device fields, and the three handles, of a state.\<close>

definition identity :: "'a channel_scheme \<Rightarrow> bool \<times> string option \<times> string option \<times> string option" where
  "identity s = (isConnected s, deviceId s, deviceCapacity s, deviceUnits s)"

definition handles :: "'a channel_scheme \<Rightarrow> bool \<times> bool \<times> bool" where
  "handles s = (lineReader s, writer s, port s)"

text \<open>A device that answers \<open>id\<close>; the read of the answer to \<open>slc\<close> then fails.\<close>

definition slc_fails :: transport where
  "slc_fails = quiet\<lparr>incoming := [Line ''SCALE-7'', ReadError ''timeout'']\<rparr>"


section \<open>Properties of the line framer\<close>

lemma split_lines_ne: "split_lines s \<noteq> []"
  by (induction s rule: split_lines.induct) (auto split: if_splits elim: cons_first.elims)

lemma cons_first_append: "ls \<noteq> [] \<Longrightarrow> cons_first c (ls @ ms) = cons_first c ls @ ms"
  by (cases ls) auto

lemma last_cons_first: "length ls > 1 \<Longrightarrow> last (cons_first c ls) = last ls"
  by (cases ls) auto

lemma butlast_cons_first: "length ls > 1 \<Longrightarrow> butlast (cons_first c ls) = cons_first c (butlast ls)"
  by (cases ls; cases "tl ls") auto

lemma split_lines_Cons:
  "split_lines (c # s) =
     (if c = LF then [] # split_lines s
      else if c = CR \<and> s \<noteq> [] \<and> hd s = LF then [] # split_lines (tl s)
      else cons_first c (split_lines s))"
  by (cases s) auto

lemma split_lines_single: "LF \<notin> set s \<Longrightarrow> split_lines s = [s]"
  by (induction s rule: split_lines.induct) auto

lemma split_lines_length1: "length (split_lines s) \<le> 1 \<Longrightarrow> LF \<notin> set s"
proof (induction s rule: split_lines.induct)
  case (3 c d cs)
  have ne: "split_lines (d # cs) \<noteq> []" "split_lines cs \<noteq> []" by (rule split_lines_ne)+
  from 3 ne show ?case
    by (cases "split_lines (d # cs)") (auto split: if_splits)
qed (auto split: if_splits)

lemma split_lines_append:
  "split_lines (x @ y) = butlast (split_lines x) @ split_lines (last (split_lines x) @ y)"
proof (induction x rule: split_lines.induct)
  case 1
  show ?case by simp
next
  case (2 c)
  show ?case by (simp add: split_lines_Cons)
next
  case (3 c d cs)
  let ?S = "split_lines (d # cs)"
  have ne: "?S \<noteq> []" by (rule split_lines_ne)
  show ?case
  proof (cases "c = LF")
    case True
    with 3 ne show ?thesis by simp
  next
    case nLF: False
    show ?thesis
    proof (cases "c = CR \<and> d = LF")
      case True
      with nLF 3 show ?thesis by (simp add: split_lines_ne)
    next
      case False
      with nLF have eq: "split_lines (c # d # cs) = cons_first c ?S" by auto
      show ?thesis
      proof (cases "length ?S > 1")
        case True
        then have bl: "butlast ?S \<noteq> []" by (cases ?S) auto
        have "split_lines ((c # d # cs) @ y) = cons_first c (split_lines ((d # cs) @ y))"
          using nLF False by auto
        also have "\<dots> = cons_first c (butlast ?S @ split_lines (last ?S @ y))"
          using 3(3) nLF False by simp
        also have "\<dots> = cons_first c (butlast ?S) @ split_lines (last ?S @ y)"
          using bl by (rule cons_first_append)
        finally show ?thesis
          using True by (simp only: eq butlast_cons_first last_cons_first)
      next
        case False
        with ne have "length ?S \<le> 1" by simp
        then have "LF \<notin> set (d # cs)" by (rule split_lines_length1)
        with nLF have "split_lines (c # d # cs) = [c # d # cs]"
          by (intro split_lines_single) simp
        then show ?thesis by simp
      qed
    qed
  qed
qed

lemma last_split_lines_LF: "last (split_lines (s @ [LF])) = []"
proof (induction s rule: split_lines.induct)
  case (3 c d cs)
  have ne: "split_lines (d # cs @ [LF]) \<noteq> []" "split_lines (cs @ [LF]) \<noteq> []"
    by (rule split_lines_ne)+
  have "length (split_lines (d # cs @ [LF])) > 1"
    using split_lines_length1 [of "d # cs @ [LF]"] by (cases "length (split_lines (d # cs @ [LF])) \<le> 1") auto
  with 3 ne show ?case by (auto simp: last_cons_first)
qed (auto simp: LF_def CR_def)

lemma last_split_lines: "last (split_lines t) = after_last_LF t"
proof (induction t rule: rev_induct)
  case Nil
  show ?case by (simp add: after_last_LF_def)
next
  case (snoc c t)
  have "split_lines (t @ [c]) = butlast (split_lines t) @ split_lines (last (split_lines t) @ [c])"
    by (rule split_lines_append)
  then have "last (split_lines (t @ [c])) = last (split_lines (after_last_LF t @ [c]))"
    using snoc by (simp add: split_lines_ne)
  also have "\<dots> = after_last_LF (t @ [c])"
  proof (cases "c = LF")
    case True
    have "split_lines (after_last_LF t @ [LF]) 
        = butlast (split_lines (after_last_LF t)) @ split_lines (last (split_lines (after_last_LF t)) @ [LF])"
      by (rule split_lines_append)
    show ?thesis using True by (simp add: last_split_lines_LF after_last_LF_def)
  next
    case False
    have "LF \<notin> set (after_last_LF t @ [c])"
      using False unfolding after_last_LF_def by (auto dest: set_takeWhileD)
    then show ?thesis using False by (simp add: split_lines_single after_last_LF_def)
  qed
  finally show ?case .
qed

lemma transform_eq:
  "transform chunk st =
     st\<lparr>buffer := last (split_lines (buffer st @ chunk)),
        enqueued := enqueued st @
          filter (\<lambda>line. truthy (trim line)) (butlast (split_lines (buffer st @ chunk)))\<rparr>"
  by (simp add: transform_def Let_def split_lines_ne)

lemma no_LF_after_last_LF: "LF \<notin> set (after_last_LF t)"
  unfolding after_last_LF_def by (auto dest: set_takeWhileD)

lemma feed_split:
  "LF \<notin> set (buffer st) \<Longrightarrow> feed chunks st =
     st\<lparr>buffer := last (split_lines (buffer st @ concat chunks)),
        enqueued := enqueued st @
          filter (\<lambda>line. truthy (trim line)) (butlast (split_lines (buffer st @ concat chunks)))\<rparr>"
proof (induction chunks arbitrary: st)
  case Nil
  then show ?case by (simp add: feed_def split_lines_single)
next
  case (Cons f fs)
  let ?b = "buffer st"
  have sp: "split_lines ((?b @ f) @ concat fs) =
        butlast (split_lines (?b @ f)) @ split_lines (last (split_lines (?b @ f)) @ concat fs)"
    by (rule split_lines_append)
  have "feed (f # fs) st = feed fs (transform f st)" by (simp add: feed_def)
  also have "\<dots> = (transform f st)\<lparr>buffer := last (split_lines (buffer (transform f st) @ concat fs)),
        enqueued := enqueued (transform f st) @
          filter (\<lambda>line. truthy (trim line)) (butlast (split_lines (buffer (transform f st) @ concat fs)))\<rparr>"
    by (rule Cons.IH) (simp add: transform_eq last_split_lines no_LF_after_last_LF)
  finally show ?case
    using sp by (simp add: transform_eq split_lines_ne butlast_append)
qed

lemma split_lines_line_LF:
  "LF \<notin> set x \<Longrightarrow> x = [] \<or> last x \<noteq> CR \<Longrightarrow> split_lines (x @ LF # rest) = x # split_lines rest"
proof (induction x)
  case Nil
  show ?case by (simp add: split_lines_Cons)
next
  case (Cons c s)
  then show ?case
    by (cases s) (auto simp: split_lines_Cons split: if_splits)
qed

lemma split_lines_line_CRLF:
  "LF \<notin> set x \<Longrightarrow> split_lines (x @ CR # LF # rest) = x # split_lines rest"
proof (induction x)
  case Nil
  show ?case by (simp add: split_lines_Cons LF_def CR_def)
next
  case (Cons c s)
  then show ?case
    by (cases s) (auto simp: split_lines_Cons LF_def CR_def split: if_splits)
qed

lemma split_lines_join:
  "\<forall>x \<in> set (map fst pre). LF \<notin> set x \<and> (x = [] \<or> last x \<noteq> CR) \<Longrightarrow> LF \<notin> set l \<Longrightarrow>
   split_lines (join_lines pre l) = map fst pre @ [l]"
proof (induction pre)
  case Nil
  then show ?case by (simp add: split_lines_single)
next
  case (Cons p pre)
  obtain x crlf where p: "p = (x, crlf)" by (cases p)
  with Cons show ?case
    by (cases crlf) (simp_all add: split_lines_line_LF split_lines_line_CRLF)
qed

lemma feed_fresh:
  "feed chunks createLineTransformStream =
     \<lparr>buffer = after_last_LF (concat chunks),
      enqueued = filter (\<lambda>line. truthy (trim line)) (butlast (split_lines (concat chunks)))\<rparr>"
  using feed_split [of createLineTransformStream chunks]
  by (simp add: createLineTransformStream_def last_split_lines)

text \<open>
  C1, as the code has it. For a text of one or more non-blank lines joined by \<open>\n\<close> or \<open>\r\n\<close> and
  any way of cutting it into chunks, writing the chunks enqueues every line but the last, in
  order, and holds the last line in the buffer, whatever the chunk boundaries are; the last
  line is enqueued by \<open>flush\<close>, so that writing the chunks and then closing the stream
  enqueues exactly the lines of the text, in order.
\<close>

theorem framer_emits_joined_lines:
  assumes "concat chunks = join_lines pre l"
    and "\<forall>x \<in> set (map fst pre @ [l]). is_line x"
  shows "enqueued (feed chunks createLineTransformStream) = map fst pre
       \<and> buffer (feed chunks createLineTransformStream) = l
       \<and> enqueued (flush (feed chunks createLineTransformStream)) = map fst pre @ [l]"
proof -
  have lines: "\<forall>x \<in> set (map fst pre). LF \<notin> set x \<and> (x = [] \<or> last x \<noteq> CR)"
    and l: "LF \<notin> set l" "truthy (trim l)"
    using assms(2) by (auto simp: is_line_def)
  have sp: "split_lines (concat chunks) = map fst pre @ [l]"
    using lines l(1) unfolding assms(1) by (rule split_lines_join)
  have nb: "filter (\<lambda>line. truthy (trim line)) (map fst pre) = map fst pre"
    using assms(2) by (auto simp: is_line_def filter_id_conv)
  have b: "after_last_LF (concat chunks) = l"
    using sp last_split_lines [of "concat chunks"] by simp
  show ?thesis
    using l(2) by (simp add: feed_fresh sp nb b flush_def)
qed

theorem framer_emits_joined_lines_witness:
  "enqueued (feed [''a'' @ [CR], LF # ''bc'' @ [LF], ''d''] createLineTransformStream) = [''a'', ''bc'']
   \<and> buffer (feed [''a'' @ [CR], LF # ''bc'' @ [LF], ''d''] createLineTransformStream) = ''d''
   \<and> enqueued (flush (feed [''a'' @ [CR], LF # ''bc'' @ [LF], ''d''] createLineTransformStream))
       = [''a'', ''bc'', ''d'']"
  using framer_emits_joined_lines [of "[''a'' @ [CR], LF # ''bc'' @ [LF], ''d'']" "[(''a'', True), (''bc'', False)]" "''d''"]
  by (simp add: is_line_def truthy_def trim_def isWhiteSpace_def LF_def CR_def)

text \<open>
  C1 as stated fails: the two lines \<open>a\<close> and \<open>b\<close> joined by \<open>\n\<close> and written as one
  chunk enqueue only \<open>a\<close>.
\<close>

theorem framer_keeps_last_line_until_flush:
  "concat [''a'' @ [LF] @ ''b''] = join_lines [(''a'', False)] ''b''
   \<and> is_line ''a'' \<and> is_line ''b''
   \<and> enqueued (feed [''a'' @ [LF] @ ''b''] createLineTransformStream) = [''a'']
   \<and> enqueued (feed [''a'' @ [LF] @ ''b''] createLineTransformStream) \<noteq> [''a'', ''b'']"
  by (simp add: feed_def transform_def createLineTransformStream_def Let_def
      is_line_def truthy_def trim_def isWhiteSpace_def LF_def CR_def)

text \<open>
  C8, as the code has it. After any chunks, the buffer is the text that follows the last line
  feed of their concatenation, and \<open>flush\<close> enqueues exactly one more line, that text as it
  is (not trimmed), when its trimmed form is not empty; it enqueues nothing when the buffer is
  blank.
\<close>

theorem flush_emits_untrimmed_buffer:
  "buffer (feed chunks createLineTransformStream) = after_last_LF (concat chunks)
   \<and> enqueued (flush (feed chunks createLineTransformStream)) =
       enqueued (feed chunks createLineTransformStream) @
         (if trim (after_last_LF (concat chunks)) = [] then [] else [after_last_LF (concat chunks)])"
  by (simp add: feed_fresh flush_def truthy_def)

text \<open>
  C8 as stated fails: after the chunk \<open>" 5 "\<close> the flushed line is \<open>" 5 "\<close>, with its
  spaces, and not the trimmed \<open>"5"\<close>.
\<close>

theorem flush_does_not_trim:
  "enqueued (flush (feed ['' 5 ''] createLineTransformStream)) = ['' 5 '']
   \<and> trim (buffer (feed ['' 5 ''] createLineTransformStream)) = ''5''
   \<and> enqueued (flush (feed ['' 5 ''] createLineTransformStream))
        \<noteq> [trim (buffer (feed ['' 5 ''] createLineTransformStream))]"
  by (simp add: feed_def transform_def flush_def createLineTransformStream_def Let_def
      truthy_def trim_def isWhiteSpace_def LF_def CR_def)

section \<open>Properties of the weight filter\<close>










text \<open>
  C5. From an empty window, pushing 5, 1 and 3 returns 5, 5 and 3 in that order (and leaves
  the window \<open>[5, 1, 3]\<close>).
\<close>

theorem filterWithMedian_5_1_3:
  "(case filterWithMedian 5 (s\<lparr>weightWindow := []\<rparr>) of (o1, s1) \<Rightarrow>
    case filterWithMedian 1 s1 of (o2, s2) \<Rightarrow>
    case filterWithMedian 3 s2 of (o3, s3) \<Rightarrow> ([o1, o2, o3], weightWindow s3)) = ([5, 5, 3], [5, 1, 3])"
  by (simp add: filterWithMedian_def Let_def windowSize_def)

section \<open>Properties of the readings-per-second counter\<close>

lemma updateReadingsPerSecond_list:
  "readingsInLastSecond (updateReadingsPerSecond s) =
     filter (younger_than_second (clock s (ticks s))) (readingsInLastSecond s)"
  by (simp add: updateReadingsPerSecond_def Date_now_def Let_def younger_than_second_def [abs_def])

lemma updateReadingsPerSecond_count:
  "readingsPerSecond (updateReadingsPerSecond s) = length (readingsInLastSecond (updateReadingsPerSecond s))"
  by (simp add: updateReadingsPerSecond_def Date_now_def Let_def)

lemma updateReadingsPerSecond_clock:
  "clock (updateReadingsPerSecond s) = clock s" "ticks (updateReadingsPerSecond s) = Suc (ticks s)"
  by (simp_all add: updateReadingsPerSecond_def Date_now_def Let_def)

lemma filterWithMedian_other:
  "clock (snd (filterWithMedian x s)) = clock s"
  "ticks (snd (filterWithMedian x s)) = ticks s"
  "readingsInLastSecond (snd (filterWithMedian x s)) = readingsInLastSecond s"
  "readingsPerSecond (snd (filterWithMedian x s)) = readingsPerSecond s"
  "readings (snd (filterWithMedian x s)) = readings s"
  "latencies (snd (filterWithMedian x s)) = latencies s"
  by (simp_all add: filterWithMedian_def Let_def)

lemma sc_processReading_list:
  "readingsInLastSecond (sc_processReading w l s) =
     retain (readingsInLastSecond s) (clock s (ticks s), clock s (Suc (ticks s)))"
  by (simp add: sc_processReading_def Date_now_def updateReadingsPerSecond_list retain_def
      updateReadingsPerSecond_def Let_def younger_than_second_def [abs_def])

lemma sc_processReading_count:
  "readingsPerSecond (sc_processReading w l s) = length (readingsInLastSecond (sc_processReading w l s))"
  by (simp add: sc_processReading_def Date_now_def updateReadingsPerSecond_def Let_def)

lemma sc_processReading_clock:
  "clock (sc_processReading w l s) = clock s" "ticks (sc_processReading w l s) = ticks s + 2"
  by (simp_all add: sc_processReading_def Date_now_def updateReadingsPerSecond_def Let_def)

lemma spt_processReading_list:
  "readingsInLastSecond (spt_processReading w l s) =
     retain (readingsInLastSecond s) (clock s (ticks s), clock s (Suc (ticks s)))"
  by (simp add: spt_processReading_def Date_now_def retain_def spt_updateMetrics_def
      filterWithMedian_def updateReadingsPerSecond_def Let_def younger_than_second_def [abs_def])

lemma spt_processReading_count:
  "readingsPerSecond (spt_processReading w l s) = length (readingsInLastSecond (spt_processReading w l s))"
  by (simp add: spt_processReading_def Date_now_def spt_updateMetrics_def
      filterWithMedian_def updateReadingsPerSecond_def Let_def)

lemma spt_processReading_clock:
  "clock (spt_processReading w l s) = clock s" "ticks (spt_processReading w l s) = ticks s + 2"
  by (simp_all add: spt_processReading_def Date_now_def spt_updateMetrics_def
      filterWithMedian_def updateReadingsPerSecond_def Let_def)

lemma clock_readings_Suc:
  "clock s' = clock s \<Longrightarrow> ticks s' = ticks s + 2 \<Longrightarrow>
   clock_readings s (Suc n) = (clock s (ticks s), clock s (Suc (ticks s))) # clock_readings s' n"
  by (simp add: clock_readings_def upt_conv_Cons map_Suc_upt [symmetric] del: upt_Suc)

lemma sc_processAll_list:
  "readingsInLastSecond (sc_processAll rs s) =
     foldl retain (readingsInLastSecond s) (clock_readings s (length rs))"
proof (induction rs arbitrary: s)
  case Nil
  show ?case by (simp add: clock_readings_def)
next
  case (Cons r rs)
  obtain w l where r: "r = (w, l)" by (cases r)
  show ?case
    using Cons.IH [of "sc_processReading w l s"]
      clock_readings_Suc [of "sc_processReading w l s" s "length rs"]
    by (simp add: r sc_processReading_clock sc_processReading_list)
qed

lemma spt_processAll_list:
  "readingsInLastSecond (spt_processAll rs s) =
     foldl retain (readingsInLastSecond s) (clock_readings s (length rs))"
proof (induction rs arbitrary: s)
  case Nil
  show ?case by (simp add: clock_readings_def)
next
  case (Cons r rs)
  obtain w l where r: "r = (w, l)" by (cases r)
  show ?case
    using Cons.IH [of "spt_processReading w l s"]
      clock_readings_Suc [of "spt_processReading w l s" s "length rs"]
    by (simp add: r spt_processReading_clock spt_processReading_list)
qed

lemma length_filter_filter_le: "length (filter P (filter Q xs)) \<le> length (filter P xs)"
  by (induction xs) auto

lemma retain_filter_le:
  "length (filter P (foldl retain ts evs)) \<le> length (filter P (ts @ map fst evs))"
proof (induction evs arbitrary: P rule: rev_induct)
  case Nil
  show ?case by simp
next
  case (snoc e evs)
  let ?Q = "\<lambda>x. younger_than_second (snd e) x \<and> P x"
  have "length (filter P (foldl retain ts (evs @ [e]))) =
        length (filter ?Q (foldl retain ts evs)) + length (filter ?Q [fst e])"
    by (simp add: retain_def [of "foldl retain ts evs"] conj_commute)
  also have "\<dots> \<le> length (filter ?Q (ts @ map fst evs)) + length (filter ?Q [fst e])"
    using snoc.IH [of ?Q] by simp
  also have "\<dots> = length (filter ?Q (ts @ map fst (evs @ [e])))" by simp
  also have "\<dots> = length (filter P (filter (younger_than_second (snd e)) (ts @ map fst (evs @ [e]))))"
    by (simp only: filter_filter conj_commute)
  also have "\<dots> \<le> length (filter P (ts @ map fst (evs @ [e])))"
    by (rule length_filter_filter_le)
  finally show ?case .
qed

lemma retain_bound:
  "length (foldl retain ts (evs @ [e])) \<le>
     length (filter (younger_than_second (snd e)) (ts @ map fst (evs @ [e])))"
  using retain_filter_le [of "younger_than_second (snd e)" ts evs]
  by (simp add: retain_def [of "foldl retain ts evs"])

lemma retain_monotone_clock:
  "sorted (map snd evs) \<Longrightarrow> evs \<noteq> [] \<Longrightarrow>
   foldl retain ts evs = filter (younger_than_second (snd (last evs))) (ts @ map fst evs)"
proof (induction evs rule: rev_induct)
  case Nil
  then show ?case by simp
next
  case (snoc e evs)
  show ?case
  proof (cases "evs = []")
    case True
    then show ?thesis by (simp add: retain_def)
  next
    case False
    from snoc.prems have srt: "sorted (map snd evs)" and le: "snd (last evs) \<le> snd e"
      using False by (auto simp: sorted_append)
    have imp: "(younger_than_second (snd (last evs)) x \<and> younger_than_second (snd e) x)
        = younger_than_second (snd e) x" for x
      using le by (auto simp: younger_than_second_def)
    have "foldl retain ts (evs @ [e]) =
          filter (younger_than_second (snd e)) (foldl retain ts evs @ [fst e])"
      by (simp add: retain_def [of "foldl retain ts evs"])
    also have "\<dots> = filter (younger_than_second (snd e))
            (filter (younger_than_second (snd (last evs))) (ts @ map fst evs) @ [fst e])"
      by (simp only: snoc.IH [OF srt False])
    also have "\<dots> = filter (younger_than_second (snd e)) (ts @ map fst (evs @ [e]))"
      by (simp add: filter_filter imp)
    finally show ?thesis by simp
  qed
qed

lemma sc_processAll_count:
  "rs \<noteq> [] \<Longrightarrow> readingsPerSecond (sc_processAll rs s) = length (readingsInLastSecond (sc_processAll rs s))"
proof (induction rs arbitrary: s)
  case Nil
  then show ?case by simp
next
  case (Cons r rs)
  obtain w l where r: "r = (w, l)" by (cases r)
  show ?case
  proof (cases "rs = []")
    case True
    then show ?thesis by (simp add: r sc_processReading_count)
  next
    case False
    then show ?thesis using Cons.IH [of "sc_processReading w l s"] by (simp add: r)
  qed
qed

lemma spt_processAll_count:
  "rs \<noteq> [] \<Longrightarrow> readingsPerSecond (spt_processAll rs s) = length (readingsInLastSecond (spt_processAll rs s))"
proof (induction rs arbitrary: s)
  case Nil
  then show ?case by simp
next
  case (Cons r rs)
  obtain w l where r: "r = (w, l)" by (cases r)
  show ?case
  proof (cases "rs = []")
    case True
    then show ?thesis by (simp add: r spt_processReading_count)
  next
    case False
    then show ?thesis using Cons.IH [of "spt_processReading w l s"] by (simp add: r)
  qed
qed

lemma clock_readings_bound:
  "rs \<noteq> [] \<Longrightarrow>
   length (foldl retain ts (clock_readings s (length rs))) \<le>
     length (filter (younger_than_second (snd (last (clock_readings s (length rs)))))
       (ts @ map fst (clock_readings s (length rs))))"
proof -
  assume "rs \<noteq> []"
  then have "clock_readings s (length rs) \<noteq> []" by (simp add: clock_readings_def)
  then obtain evs e where "clock_readings s (length rs) = evs @ [e]"
    by (metis rev_exhaust)
  then show ?thesis using retain_bound [of ts evs e] by simp
qed

lemma clock_readings_mono:
  assumes "mono (clock s)" "0 < n"
  shows "sorted (map snd (clock_readings s n))"
    and "\<forall>t \<in> set (map fst (clock_readings s n)). t \<le> snd (last (clock_readings s n))"
proof -
  show "sorted (map snd (clock_readings s n))"
    using assms(1) by (auto simp: clock_readings_def sorted_iff_nth_mono mono_def)
  have l: "snd (last (clock_readings s n)) = clock s (ticks s + 2 * (n - 1) + 1)"
    using assms(2) by (cases n) (simp_all add: clock_readings_def)
  show "\<forall>t \<in> set (map fst (clock_readings s n)). t \<le> snd (last (clock_readings s n))"
    unfolding l using assms(1) by (auto simp: clock_readings_def mono_def)
qed

lemma monotone_clock_count:
  assumes "mono (clock s)" "rs \<noteq> []"
  shows "foldl retain [] (clock_readings s (length rs)) =
         filter (in_last_second (snd (last (clock_readings s (length rs)))))
           (map fst (clock_readings s (length rs)))"
proof -
  let ?evs = "clock_readings s (length rs)"
  have n: "0 < length rs" using assms(2) by simp
  have ne: "?evs \<noteq> []" using n by (simp add: clock_readings_def)
  have "foldl retain [] ?evs = filter (younger_than_second (snd (last ?evs))) ([] @ map fst ?evs)"
    using clock_readings_mono(1) [OF assms(1) n] ne by (rule retain_monotone_clock)
  also have "\<dots> = filter (in_last_second (snd (last ?evs))) (map fst ?evs)"
    using clock_readings_mono(2) [OF assms(1) n]
    by (auto simp: younger_than_second_def in_last_second_def intro!: filter_cong)
  finally show ?thesis .
qed

lemma half_seconds_mono: "mono (\<lambda>n. 500 * int (n div 2))"
  by (simp add: mono_def div_le_mono)

text \<open>
  C6, as the code has it. On every reading insertion \<open>readingsPerSecond\<close> becomes the number
  of time stamps, among those the list still holds and the new one, whose age \<open>now - t\<close> is
  strictly below 1000 ms; a time stamp exactly 1000 ms old is dropped and not counted. When
  the clock never runs backwards, after a run of insertions that started with an empty list
  this is the number of all recorded time stamps in the half-open interval from
  \<open>now - 1000\<close> (excluded) to \<open>now\<close> (included).
\<close>

theorem readingsPerSecond_counts_ages_below_second:
  "readingsPerSecond (sc_processReading w l c) =
     length (filter (\<lambda>t. clock c (Suc (ticks c)) - t < 1000) (readingsInLastSecond c @ [clock c (ticks c)]))
   \<and> readingsPerSecond (spt_processReading w l p) =
     length (filter (\<lambda>t. clock p (Suc (ticks p)) - t < 1000) (readingsInLastSecond p @ [clock p (ticks p)]))
   \<and> clock c (Suc (ticks c)) - 1000 \<notin> set (readingsInLastSecond (sc_processReading w l c))
   \<and> clock p (Suc (ticks p)) - 1000 \<notin> set (readingsInLastSecond (spt_processReading w l p))
   \<and> (mono (clock c) \<and> rs \<noteq> [] \<and> readingsInLastSecond c = [] \<longrightarrow>
        readingsPerSecond (sc_processAll rs c) =
          length (filter (in_last_second (snd (last (clock_readings c (length rs)))))
            (map fst (clock_readings c (length rs)))))
   \<and> (mono (clock p) \<and> rs \<noteq> [] \<and> readingsInLastSecond p = [] \<longrightarrow>
        readingsPerSecond (spt_processAll rs p) =
          length (filter (in_last_second (snd (last (clock_readings p (length rs)))))
            (map fst (clock_readings p (length rs)))))"
proof -
  have a: "readingsPerSecond (sc_processReading w l c) =
     length (filter (\<lambda>t. clock c (Suc (ticks c)) - t < 1000) (readingsInLastSecond c @ [clock c (ticks c)]))"
    by (simp add: sc_processReading_count sc_processReading_list retain_def
        younger_than_second_def [abs_def])
  have b: "readingsPerSecond (spt_processReading w l p) =
     length (filter (\<lambda>t. clock p (Suc (ticks p)) - t < 1000) (readingsInLastSecond p @ [clock p (ticks p)]))"
    by (simp add: spt_processReading_count spt_processReading_list retain_def
        younger_than_second_def [abs_def])
  have c: "clock c (Suc (ticks c)) - 1000 \<notin> set (readingsInLastSecond (sc_processReading w l c))"
    "clock p (Suc (ticks p)) - 1000 \<notin> set (readingsInLastSecond (spt_processReading w l p))"
    by (simp_all add: sc_processReading_list spt_processReading_list retain_def
        younger_than_second_def)
  have d: "mono (clock c) \<and> rs \<noteq> [] \<and> readingsInLastSecond c = [] \<longrightarrow>
        readingsPerSecond (sc_processAll rs c) =
          length (filter (in_last_second (snd (last (clock_readings c (length rs)))))
            (map fst (clock_readings c (length rs))))"
    by (auto simp: sc_processAll_count sc_processAll_list monotone_clock_count)
  have e: "mono (clock p) \<and> rs \<noteq> [] \<and> readingsInLastSecond p = [] \<longrightarrow>
        readingsPerSecond (spt_processAll rs p) =
          length (filter (in_last_second (snd (last (clock_readings p (length rs)))))
            (map fst (clock_readings p (length rs))))"
    by (auto simp: spt_processAll_count spt_processAll_list monotone_clock_count)
  from a b c d e show ?thesis by blast
qed

theorem readingsPerSecond_counts_ages_below_second_witness:
  "mono (clock (SerialChannel half_seconds)) \<and> mono (clock (SerialPerformanceTest half_seconds))
   \<and> [(1, 0), (2, 0), (3, 0)] \<noteq> ([] :: (real \<times> real) list)
   \<and> readingsInLastSecond (SerialChannel half_seconds) = []
   \<and> readingsInLastSecond (SerialPerformanceTest half_seconds) = []
   \<and> readingsPerSecond (sc_processAll [(1, 0), (2, 0), (3, 0)] (SerialChannel half_seconds)) = 2
   \<and> readingsPerSecond (spt_processAll [(1, 0), (2, 0), (3, 0)] (SerialPerformanceTest half_seconds)) = 1"
  using readingsPerSecond_counts_ages_below_second [of 1 0 "SerialChannel half_seconds" "SerialPerformanceTest half_seconds"
      "[(1, 0), (2, 0), (3, 0)]"] half_seconds_mono
  by (simp add: clock_readings_def in_last_second_def SerialChannel_def
      SerialPerformanceTest_def half_seconds_def quiet_def)

text \<open>
  C6 as stated fails: with readings recorded at 0, 500 and 1000 ms, the recomputation at
  1000 ms gives 2, and the closed interval from 0 to 1000 holds 3 time stamps.
\<close>

theorem readingsPerSecond_excludes_exact_second:
  "readingsPerSecond (sc_processAll [(1, 0), (2, 0), (3, 0)] (SerialChannel half_seconds)) = 2
   \<and> map fst (clock_readings (SerialChannel half_seconds) 3) = [0, 500, 1000]
   \<and> snd (last (clock_readings (SerialChannel half_seconds) 3)) = 1000
   \<and> closed_second_count 1000 [0, 500, 1000] = 3
   \<and> readingsPerSecond (sc_processAll [(1, 0), (2, 0), (3, 0)] (SerialChannel half_seconds))
        \<noteq> closed_second_count 1000 [0, 500, 1000]"
proof -
  have "readingsPerSecond (sc_processAll [(1, 0), (2, 0), (3, 0)] (SerialChannel half_seconds)) =
        length (readingsInLastSecond (sc_processAll [(1, 0), (2, 0), (3, 0)] (SerialChannel half_seconds)))"
    by (rule sc_processAll_count) simp
  also have "\<dots> = 2"
    by (simp add: sc_processAll_list clock_readings_def retain_def
      younger_than_second_def SerialChannel_def half_seconds_def quiet_def del: sc_processAll.simps)
  finally have "readingsPerSecond (sc_processAll [(1, 0), (2, 0), (3, 0)] (SerialChannel half_seconds)) = 2" .
  moreover have "map fst (clock_readings (SerialChannel half_seconds) 3) = [0, 500, 1000]"
    "snd (last (clock_readings (SerialChannel half_seconds) 3)) = 1000"
    by (simp_all add: clock_readings_def SerialChannel_def half_seconds_def quiet_def
        numeral_3_eq_3)
  moreover have "closed_second_count 1000 [0, 500, 1000] = 3"
    by (simp add: closed_second_count_def in_closed_second_def)
  ultimately show ?thesis by simp
qed

text \<open>
  C9. After \<open>updateReadingsPerSecond\<close> the list \<open>readingsInLastSecond\<close> holds only time
  stamps less than 1000 ms old at that moment; it is the old list without the stale entries
  (they are removed from the list itself), and its length is the reported
  \<open>readingsPerSecond\<close>. The same equality holds after every \<open>processReading\<close>, after
  \<open>clearData\<close> and in a new object. After a run of accepted readings the length of the list
  is at most the number of time stamps (those the list held before the run and those of the
  run) that are less than 1000 ms old at the last recomputation.
\<close>

theorem readingsInLastSecond_pruned:
  "(\<forall>t \<in> set (readingsInLastSecond (updateReadingsPerSecond s)). clock s (ticks s) - t < 1000)
   \<and> readingsInLastSecond (updateReadingsPerSecond s) =
       filter (\<lambda>t. clock s (ticks s) - t < 1000) (readingsInLastSecond s)
   \<and> length (readingsInLastSecond (updateReadingsPerSecond s)) = readingsPerSecond (updateReadingsPerSecond s)
   \<and> length (readingsInLastSecond (sc_processReading w l c)) = readingsPerSecond (sc_processReading w l c)
   \<and> length (readingsInLastSecond (spt_processReading w l p)) = readingsPerSecond (spt_processReading w l p)
   \<and> length (readingsInLastSecond (sc_clearData c)) = readingsPerSecond (sc_clearData c)
   \<and> length (readingsInLastSecond (spt_clearData p)) = readingsPerSecond (spt_clearData p)
   \<and> length (readingsInLastSecond (SerialChannel io)) = readingsPerSecond (SerialChannel io)
   \<and> length (readingsInLastSecond (SerialPerformanceTest io)) = readingsPerSecond (SerialPerformanceTest io)
   \<and> (rs \<noteq> [] \<longrightarrow>
        length (readingsInLastSecond (sc_processAll rs c)) \<le>
          length (filter (younger_than_second (snd (last (clock_readings c (length rs)))))
            (readingsInLastSecond c @ map fst (clock_readings c (length rs)))))
   \<and> (rs \<noteq> [] \<longrightarrow>
        length (readingsInLastSecond (spt_processAll rs p)) \<le>
          length (filter (younger_than_second (snd (last (clock_readings p (length rs)))))
            (readingsInLastSecond p @ map fst (clock_readings p (length rs)))))"
proof -
  have a: "\<forall>t \<in> set (readingsInLastSecond (updateReadingsPerSecond s)). clock s (ticks s) - t < 1000"
    by (simp add: updateReadingsPerSecond_list younger_than_second_def)
  have b: "readingsInLastSecond (updateReadingsPerSecond s) =
       filter (\<lambda>t. clock s (ticks s) - t < 1000) (readingsInLastSecond s)"
    by (simp add: updateReadingsPerSecond_list younger_than_second_def [abs_def])
  have c: "length (readingsInLastSecond (sc_clearData c)) = readingsPerSecond (sc_clearData c)"
    "length (readingsInLastSecond (spt_clearData p)) = readingsPerSecond (spt_clearData p)"
    "length (readingsInLastSecond (SerialChannel io)) = readingsPerSecond (SerialChannel io)"
    "length (readingsInLastSecond (SerialPerformanceTest io)) = readingsPerSecond (SerialPerformanceTest io)"
    by (simp_all add: sc_clearData_def sc_updateMetrics_def spt_clearData_def spt_updateMetrics_def
        logMessage_def SerialChannel_def SerialPerformanceTest_def)
  have d: "rs \<noteq> [] \<longrightarrow>
        length (readingsInLastSecond (sc_processAll rs c)) \<le>
          length (filter (younger_than_second (snd (last (clock_readings c (length rs)))))
            (readingsInLastSecond c @ map fst (clock_readings c (length rs))))"
    by (simp only: sc_processAll_list) (blast intro: clock_readings_bound)
  have e: "rs \<noteq> [] \<longrightarrow>
        length (readingsInLastSecond (spt_processAll rs p)) \<le>
          length (filter (younger_than_second (snd (last (clock_readings p (length rs)))))
            (readingsInLastSecond p @ map fst (clock_readings p (length rs))))"
    by (simp only: spt_processAll_list) (blast intro: clock_readings_bound)
  show ?thesis
    using a b c d e
    by (simp only: updateReadingsPerSecond_count sc_processReading_count spt_processReading_count
        simp_thms)
qed

theorem readingsInLastSecond_pruned_witness:
  "[(1, 0), (2, 0), (3, 0)] \<noteq> ([] :: (real \<times> real) list)
   \<and> length (readingsInLastSecond (sc_processAll [(1, 0), (2, 0), (3, 0)] (SerialChannel half_seconds))) \<le> 2
   \<and> length (readingsInLastSecond (spt_processAll [(1, 0), (2, 0), (3, 0)] (SerialPerformanceTest half_seconds))) \<le> 2
   \<and> set (readingsInLastSecond (updateReadingsPerSecond
        ((SerialChannel half_seconds)\<lparr>readingsInLastSecond := [-1000, -500], readingsPerSecond := 2\<rparr>))) = {-500}"
  using readingsInLastSecond_pruned [of "(SerialChannel half_seconds)\<lparr>readingsInLastSecond := [-1000, -500], readingsPerSecond := 2\<rparr>"
      1 0 "SerialChannel half_seconds" "SerialPerformanceTest half_seconds" quiet
      "[(1, 0), (2, 0), (3, 0)]"]
  by (simp add: clock_readings_def younger_than_second_def SerialChannel_def
      SerialPerformanceTest_def half_seconds_def quiet_def)

section \<open>Latencies of the continuous-read method\<close>

lemma foldl_add_zeros: "list_all (\<lambda>l. l = 0) xs \<Longrightarrow> foldl (+) a xs = (a::real)"
  by (induction xs arbitrary: a) auto

lemma fold_min_zeros: "list_all (\<lambda>l. l = 0) xs \<Longrightarrow> fold min xs (0::real) = 0"
  by (induction xs) auto

lemma fold_max_zeros: "list_all (\<lambda>l. l = 0) xs \<Longrightarrow> fold max xs (0::real) = 0"
  by (induction xs) auto

lemma zero_statistics:
  assumes "list_all (\<lambda>l. l = 0) xs" "xs \<noteq> []"
  shows "average xs = Number 0" "Math_min xs = Number 0" "Math_max xs = Number 0"
  using assms
  by (cases xs; simp add: average_def Math_min_def Math_max_def foldl_add_zeros
      fold_min_zeros fold_max_zeros)+

lemma keepLast1000_all: "list_all P xs \<Longrightarrow> list_all P (keepLast1000 xs)"
  by (cases xs) (auto simp: keepLast1000_def)

lemma keepLast1000_snoc_ne: "keepLast1000 (xs @ [x]) \<noteq> []"
  by (cases xs; cases "tl xs") (auto simp: keepLast1000_def)

lemma sc_sendCommand_stats:
  "readings (snd (sc_sendCommand c s)) = readings s"
  "latencies (snd (sc_sendCommand c s)) = latencies s"
  "avgLatency (snd (sc_sendCommand c s)) = avgLatency s"
  "minLatency (snd (sc_sendCommand c s)) = minLatency s"
  "maxLatency (snd (sc_sendCommand c s)) = maxLatency s"
  by (simp_all add: sc_sendCommand_def readResponse_def writer_write_def lineReader_read_def
      apiCall_def andThen_def tryCatch_def logMessage_def
      split: list.splits option.splits read_event.splits)

lemma spt_sendCommand_stats:
  "readings (snd (spt_sendCommand c s)) = readings s"
  "latencies (snd (spt_sendCommand c s)) = latencies s"
  "avgLatencyShown (snd (spt_sendCommand c s)) = avgLatencyShown s"
  "minLatencyShown (snd (spt_sendCommand c s)) = minLatencyShown s"
  "maxLatencyShown (snd (spt_sendCommand c s)) = maxLatencyShown s"
  by (simp_all add: spt_sendCommand_def readResponse_def writer_write_def lineReader_read_def
      apiCall_def andThen_def tryCatch_def logMessage_def
      split: list.splits option.splits read_event.splits)

lemma sc_processReading_rings:
  "latencies (sc_processReading w l s) = keepLast1000 (latencies s @ [l])"
  "readings (sc_processReading w l s) =
     keepLast1000 (readings s @ [\<lparr>weight = w, rawWeight = None, latency = l, timestamp = clock s (ticks s)\<rparr>])"
  by (simp_all add: sc_processReading_def Date_now_def updateReadingsPerSecond_def Let_def)

lemma spt_processReading_rings:
  "latencies (spt_processReading w l s) = keepLast1000 (latencies s @ [l])"
  "readings (spt_processReading w l s) =
     keepLast1000 (readings s @ [\<lparr>weight = fst (filterWithMedian w s), rawWeight = Some w, latency = l,
        timestamp = clock s (ticks s)\<rparr>])"
  by (simp_all add: spt_processReading_def Date_now_def updateReadingsPerSecond_def Let_def
      filterWithMedian_def spt_updateMetrics_def)

lemma sc_processLine_cases:
  "sc_processLine parseFloat v s = s \<or>
   (\<exists>w r. latency r = 0 \<and>
      readings (sc_processLine parseFloat v s) = keepLast1000 (readings s @ [r]) \<and>
      latencies (sc_processLine parseFloat v s) = keepLast1000 (latencies s @ [0]) \<and>
      sc_processLine parseFloat v s =
        sc_updateMetrics (sc_processReading (fst (filterWithMedian w s)) 0 (snd (filterWithMedian w s))))"
proof (cases "truthy v \<and> truthy (trim v)")
  case False
  then show ?thesis by (auto simp: sc_processLine_def)
next
  case True
  show ?thesis
  proof (cases "parseFloat (trim v)")
    case None
    with True show ?thesis by (simp add: sc_processLine_def)
  next
    case (Some w)
    let ?s1 = "snd (filterWithMedian w s)"
    let ?r = "\<lparr>weight = fst (filterWithMedian w s), rawWeight = None, latency = 0,
        timestamp = clock ?s1 (ticks ?s1)\<rparr>"
    have eq: "sc_processLine parseFloat v s =
        sc_updateMetrics (sc_processReading (fst (filterWithMedian w s)) 0 ?s1)"
      using True Some by (simp add: sc_processLine_def split_def)
    have "readings (sc_processLine parseFloat v s) = keepLast1000 (readings s @ [?r])"
      "latencies (sc_processLine parseFloat v s) = keepLast1000 (latencies s @ [0])"
      by (simp_all add: eq sc_updateMetrics_def sc_processReading_rings filterWithMedian_other)
    with eq show ?thesis by (intro disjI2 exI [of _ w] exI [of _ ?r]) simp
  qed
qed

lemma sc_processLine_zero:
  assumes "only_zero_latencies s"
  shows "only_zero_latencies (sc_processLine parseFloat v s)"
    and "sc_zero_metrics (sc_processLine parseFloat v s) \<or>
         sc_stats (sc_processLine parseFloat v s) = sc_stats s"
proof -
  let ?s' = "sc_processLine parseFloat v s"
  from sc_processLine_cases [of parseFloat v s]
  have "only_zero_latencies ?s' \<and> (sc_zero_metrics ?s' \<or> sc_stats ?s' = sc_stats s)"
  proof
    assume "?s' = s"
    with assms show ?thesis by simp
  next
    assume "\<exists>w r. latency r = 0 \<and> readings ?s' = keepLast1000 (readings s @ [r]) \<and>
      latencies ?s' = keepLast1000 (latencies s @ [0]) \<and>
      ?s' = sc_updateMetrics (sc_processReading (fst (filterWithMedian w s)) 0 (snd (filterWithMedian w s)))"
    then obtain w r where r: "latency r = 0"
      and rd: "readings ?s' = keepLast1000 (readings s @ [r])"
      and lt: "latencies ?s' = keepLast1000 (latencies s @ [0])"
      and eq: "?s' = sc_updateMetrics (sc_processReading (fst (filterWithMedian w s)) 0 (snd (filterWithMedian w s)))"
      by blast
    let ?t = "sc_processReading (fst (filterWithMedian w s)) 0 (snd (filterWithMedian w s))"
    have lt_t: "latencies ?t = keepLast1000 (latencies s @ [0])"
      by (simp add: sc_processReading_rings filterWithMedian_other)
    have rd_t: "readings ?t \<noteq> []"
      by (simp add: sc_processReading_rings keepLast1000_snoc_ne)
    have z: "list_all (\<lambda>l. l = 0) (latencies ?t)" "latencies ?t \<noteq> []"
      using assms by (simp_all add: lt_t keepLast1000_all keepLast1000_snoc_ne only_zero_latencies_def)
    have inv: "only_zero_latencies ?s'"
      using assms r unfolding only_zero_latencies_def rd lt
      by (simp add: keepLast1000_all keepLast1000_snoc_ne)
    have "sc_zero_metrics ?s'"
      unfolding eq using rd_t zero_statistics [OF z]
      by (simp add: sc_zero_metrics_def sc_updateMetrics_def)
    with inv show ?thesis by simp
  qed
  then show "only_zero_latencies ?s'"
    and "sc_zero_metrics ?s' \<or> sc_stats ?s' = sc_stats s" by simp_all
qed

lemma spt_processLine_zero:
  assumes "only_zero_latencies s"
  shows "only_zero_latencies (spt_processLine parseFloat v s)"
    and "spt_zero_metrics (spt_processLine parseFloat v s) \<or>
         spt_stats (spt_processLine parseFloat v s) = spt_stats s"
proof -
  let ?s' = "spt_processLine parseFloat v s"
  have "only_zero_latencies ?s' \<and> (spt_zero_metrics ?s' \<or> spt_stats ?s' = spt_stats s)"
  proof (cases "truthy v \<and> truthy (trim v) \<and> parseFloat (trim v) \<noteq> None")
    case False
    then have "?s' = s" by (auto simp: spt_processLine_def)
    with assms show ?thesis by simp
  next
    case True
    then obtain w where eq: "?s' = spt_processReading w 0 s"
      by (auto simp: spt_processLine_def)
    have lt: "latencies ?s' = keepLast1000 (latencies s @ [0])"
      and rd: "readings ?s' = keepLast1000 (readings s @
         [\<lparr>weight = fst (filterWithMedian w s), rawWeight = Some w, latency = 0,
           timestamp = clock s (ticks s)\<rparr>])"
      by (simp_all add: eq spt_processReading_rings)
    have inv: "only_zero_latencies ?s'"
      using assms unfolding only_zero_latencies_def rd lt
      by (simp add: keepLast1000_all keepLast1000_snoc_ne)
    have z: "list_all (\<lambda>l. l = 0) (keepLast1000 (latencies s @ [0]))"
      "keepLast1000 (latencies s @ [0]) \<noteq> []"
      using assms by (simp_all add: keepLast1000_all keepLast1000_snoc_ne only_zero_latencies_def)
    have "spt_zero_metrics ?s'"
      unfolding eq using zero_statistics [OF z]
      by (simp add: spt_zero_metrics_def spt_processReading_def Date_now_def
          updateReadingsPerSecond_def Let_def filterWithMedian_def spt_updateMetrics_def
          keepLast1000_snoc_ne)
    with inv show ?thesis by simp
  qed
  then show "only_zero_latencies ?s'"
    and "spt_zero_metrics ?s' \<or> spt_stats ?s' = spt_stats s" by simp_all
qed

lemma sc_readLoop_zero:
  "only_zero_latencies s \<Longrightarrow>
   only_zero_latencies (snd (sc_readLoop parseFloat evs s)) \<and>
   (sc_zero_metrics (snd (sc_readLoop parseFloat evs s)) \<or>
    sc_stats (snd (sc_readLoop parseFloat evs s)) = sc_stats s)"
proof (induction evs arbitrary: s)
  case Nil
  then show ?case by (simp add: only_zero_latencies_def sc_stats_def)
next
  case (Cons ev rest)
  show ?case
  proof (cases "isReading s")
    case False
    with Cons.prems show ?thesis by (simp add: only_zero_latencies_def sc_stats_def)
  next
    case True
    show ?thesis
    proof (cases ev)
      case Done
      with True Cons.prems show ?thesis
        by (simp add: only_zero_latencies_def sc_stats_def logMessage_def)
    next
      case (ReadError m)
      with True Cons.prems show ?thesis by (simp add: only_zero_latencies_def sc_stats_def)
    next
      case (Line v)
      let ?s1 = "s\<lparr>incoming := rest, calls := calls s @ [ReaderRead]\<rparr>"
      let ?s2 = "sc_processLine parseFloat v ?s1"
      let ?s3 = "snd (sc_readLoop parseFloat rest ?s2)"
      have s1: "only_zero_latencies ?s1" "sc_stats ?s1 = sc_stats s"
        using Cons.prems by (simp_all add: only_zero_latencies_def sc_stats_def)
      have s2: "only_zero_latencies ?s2" "sc_zero_metrics ?s2 \<or> sc_stats ?s2 = sc_stats ?s1"
        using sc_processLine_zero [OF s1(1)] by simp_all
      have s3: "only_zero_latencies ?s3" "sc_zero_metrics ?s3 \<or> sc_stats ?s3 = sc_stats ?s2"
        using Cons.IH [OF s2(1)] by simp_all
      have eq: "snd (sc_readLoop parseFloat (ev # rest) s) = ?s3"
        using True Line by simp
      have "sc_zero_metrics ?s3 \<or> sc_stats ?s3 = sc_stats s"
        using s2(2) s3(2) s1(2) by (auto simp: sc_zero_metrics_def sc_stats_def)
      with s3(1) show ?thesis unfolding eq by simp
    qed
  qed
qed

lemma spt_readLoop_zero:
  "only_zero_latencies s \<Longrightarrow>
   only_zero_latencies (snd (spt_readLoop parseFloat evs s)) \<and>
   (spt_zero_metrics (snd (spt_readLoop parseFloat evs s)) \<or>
    spt_stats (snd (spt_readLoop parseFloat evs s)) = spt_stats s)"
proof (induction evs arbitrary: s)
  case Nil
  then show ?case by (simp add: only_zero_latencies_def spt_stats_def)
next
  case (Cons ev rest)
  show ?case
  proof (cases "isReading s")
    case False
    with Cons.prems show ?thesis by (simp add: only_zero_latencies_def spt_stats_def)
  next
    case True
    show ?thesis
    proof (cases ev)
      case Done
      with True Cons.prems show ?thesis
        by (simp add: only_zero_latencies_def spt_stats_def logMessage_def)
    next
      case (ReadError m)
      with True Cons.prems show ?thesis by (simp add: only_zero_latencies_def spt_stats_def)
    next
      case (Line v)
      let ?s1 = "s\<lparr>incoming := rest, calls := calls s @ [ReaderRead]\<rparr>"
      let ?s2 = "spt_processLine parseFloat v ?s1"
      let ?s3 = "snd (spt_readLoop parseFloat rest ?s2)"
      have s1: "only_zero_latencies ?s1" "spt_stats ?s1 = spt_stats s"
        using Cons.prems by (simp_all add: only_zero_latencies_def spt_stats_def)
      have s2: "only_zero_latencies ?s2" "spt_zero_metrics ?s2 \<or> spt_stats ?s2 = spt_stats ?s1"
        using spt_processLine_zero [OF s1(1)] by simp_all
      have s3: "only_zero_latencies ?s3" "spt_zero_metrics ?s3 \<or> spt_stats ?s3 = spt_stats ?s2"
        using Cons.IH [OF s2(1)] by simp_all
      have eq: "snd (spt_readLoop parseFloat (ev # rest) s) = ?s3"
        using True Line by simp
      have "spt_zero_metrics ?s3 \<or> spt_stats ?s3 = spt_stats s"
        using s2(2) s3(2) s1(2) by (auto simp: spt_zero_metrics_def spt_stats_def)
      with s3(1) show ?thesis unfolding eq by simp
    qed
  qed
qed

lemma sc_readWeightContinuous_zero:
  assumes "only_zero_latencies s"
  shows "only_zero_latencies (snd (sc_readWeightContinuous parseFloat s)) \<and>
   (sc_zero_metrics (snd (sc_readWeightContinuous parseFloat s)) \<or>
    sc_stats (snd (sc_readWeightContinuous parseFloat s)) = sc_stats s)"
proof -
  obtain r s1 where send: "sc_sendCommand ''wc'' s = (r, s1)" by (cases "sc_sendCommand ''wc'' s")
  have st1: "sc_stats s1 = sc_stats s"
    using sc_sendCommand_stats [of "''wc''" s] by (simp add: send sc_stats_def)
  have z1: "only_zero_latencies s1"
    using assms sc_sendCommand_stats [of "''wc''" s] by (simp add: send only_zero_latencies_def)
  show ?thesis
  proof (cases r)
    case Pending
    with st1 z1 show ?thesis
      by (simp add: sc_readWeightContinuous_def send andThen_def tryCatch_def)
  next
    case (Throw m)
    with st1 z1 show ?thesis
      by (simp add: sc_readWeightContinuous_def send andThen_def tryCatch_def Let_def
          logMessage_def only_zero_latencies_def sc_stats_def)
  next
    case (Normal v)
    let ?s2 = "logMessage ''Started continuous weight reading with wc command'' Info s1"
    obtain r' s3 where loop: "sc_readLoop parseFloat (incoming ?s2) ?s2 = (r', s3)"
      by (cases "sc_readLoop parseFloat (incoming ?s2) ?s2")
    have z2: "only_zero_latencies ?s2" and st2: "sc_stats ?s2 = sc_stats s"
      using z1 st1 by (simp_all add: logMessage_def only_zero_latencies_def sc_stats_def)
    have z3: "only_zero_latencies s3" "sc_zero_metrics s3 \<or> sc_stats s3 = sc_stats s"
      using sc_readLoop_zero [OF z2, of parseFloat "incoming ?s2"] st2 by (simp_all add: loop)
    have eq: "snd (sc_readWeightContinuous parseFloat s) =
        snd (tryCatch (r', s3) (\<lambda>m s1.
          (let s2 = logMessage (''Error in readWeightContinuous: '' @ m) Error s1
           in (Normal (),
               if isReading s2 then s2\<lparr>scheduledRestarts := Suc (scheduledRestarts s2)\<rparr> else s2))))"
      using Normal by (simp add: sc_readWeightContinuous_def send andThen_def Let_def loop)
    show ?thesis
    proof (cases r')
      case (Throw m)
      with z3 show ?thesis
        unfolding eq
        by (simp add: tryCatch_def Let_def logMessage_def only_zero_latencies_def
            sc_stats_def sc_zero_metrics_def)
    qed (use z3 in \<open>simp_all add: eq tryCatch_def\<close>)
  qed
qed

lemma spt_readWeightOnce_zero:
  assumes "only_zero_latencies s"
  shows "only_zero_latencies (snd (spt_readWeightOnce parseFloat s)) \<and>
   (spt_zero_metrics (snd (spt_readWeightOnce parseFloat s)) \<or>
    spt_stats (snd (spt_readWeightOnce parseFloat s)) = spt_stats s)"
proof -
  obtain r s1 where send: "spt_sendCommand ''wc'' s = (r, s1)" by (cases "spt_sendCommand ''wc'' s")
  have st1: "spt_stats s1 = spt_stats s"
    using spt_sendCommand_stats [of "''wc''" s] by (simp add: send spt_stats_def)
  have z1: "only_zero_latencies s1"
    using assms spt_sendCommand_stats [of "''wc''" s] by (simp add: send only_zero_latencies_def)
  show ?thesis
  proof (cases r)
    case Pending
    with st1 z1 show ?thesis
      by (simp add: spt_readWeightOnce_def send andThen_def tryCatch_def)
  next
    case (Throw m)
    with st1 z1 show ?thesis
      by (simp add: spt_readWeightOnce_def send andThen_def tryCatch_def Let_def
          logMessage_def only_zero_latencies_def spt_stats_def)
  next
    case (Normal v)
    let ?s2 = "logMessage ''Started continuous weight reading with wc command'' Info s1"
    obtain r' s3 where loop: "spt_readLoop parseFloat (incoming ?s2) ?s2 = (r', s3)"
      by (cases "spt_readLoop parseFloat (incoming ?s2) ?s2")
    have z2: "only_zero_latencies ?s2" and st2: "spt_stats ?s2 = spt_stats s"
      using z1 st1 by (simp_all add: logMessage_def only_zero_latencies_def spt_stats_def)
    have z3: "only_zero_latencies s3" "spt_zero_metrics s3 \<or> spt_stats s3 = spt_stats s"
      using spt_readLoop_zero [OF z2, of parseFloat "incoming ?s2"] st2 by (simp_all add: loop)
    have eq: "snd (spt_readWeightOnce parseFloat s) =
        snd (tryCatch (r', s3) (\<lambda>m s1.
          (let s2 = logMessage (''Error in readWeightOnce: '' @ m) Error s1
           in (Normal (),
               if isReading s2 then s2\<lparr>scheduledRestarts := Suc (scheduledRestarts s2)\<rparr> else s2))))"
      using Normal by (simp add: spt_readWeightOnce_def send andThen_def Let_def loop)
    show ?thesis
    proof (cases r')
      case (Throw m)
      with z3 show ?thesis
        unfolding eq
        by (simp add: tryCatch_def Let_def logMessage_def only_zero_latencies_def
            spt_stats_def spt_zero_metrics_def)
    qed (use z3 in \<open>simp_all add: eq tryCatch_def\<close>)
  qed
qed

lemma spt_processLine_cases:
  "spt_processLine parseFloat v s = s \<or>
   (\<exists>r. latency r = 0 \<and>
      readings (spt_processLine parseFloat v s) = keepLast1000 (readings s @ [r]) \<and>
      latencies (spt_processLine parseFloat v s) = keepLast1000 (latencies s @ [0]))"
proof (cases "truthy v \<and> truthy (trim v) \<and> parseFloat (trim v) \<noteq> None")
  case False
  then show ?thesis by (auto simp: spt_processLine_def)
next
  case True
  then obtain w where eq: "spt_processLine parseFloat v s = spt_processReading w 0 s"
    by (auto simp: spt_processLine_def)
  show ?thesis
    by (rule disjI2, rule exI [of _ "\<lparr>weight = fst (filterWithMedian w s), rawWeight = Some w,
          latency = 0, timestamp = clock s (ticks s)\<rparr>"])
       (simp add: eq spt_processReading_rings)
qed

text \<open>
  C10. Every reading that the \<open>wc\<close> read loop records (\<open>readWeightContinuous\<close> in
  \<open>SerialChannel\<close>, \<open>readWeightOnce\<close> in \<open>SerialPerformanceTest\<close>) has latency 0: a
  line either changes nothing or appends a reading of latency 0 and the latency 0 to the
  rings. Hence, from a state that holds only latencies 0 (as after \<open>clearData\<close> or in a new
  object), the method leaves only latencies 0, and afterwards the average, minimum and
  maximum latency are all 0 unless no reading was recorded, in which case the rings and the
  three statistics are what they were. In \<open>SerialChannel\<close>, where the statistics are
  fields that start at 0, they are 0 in every state that the constructor, \<open>clearData\<close> and
  the read method can reach.
\<close>

theorem wc_readings_have_zero_latency:
  "(only_zero_latencies c \<longrightarrow>
      only_zero_latencies (snd (sc_readWeightContinuous parseFloat c)) \<and>
      (sc_zero_metrics (snd (sc_readWeightContinuous parseFloat c)) \<or>
       sc_stats (snd (sc_readWeightContinuous parseFloat c)) = sc_stats c))
   \<and> (only_zero_latencies p \<longrightarrow>
      only_zero_latencies (snd (spt_readWeightOnce parseFloat p)) \<and>
      (spt_zero_metrics (snd (spt_readWeightOnce parseFloat p)) \<or>
       spt_stats (snd (spt_readWeightOnce parseFloat p)) = spt_stats p))
   \<and> (sc_processLine parseFloat v c = c \<or>
       (\<exists>r. latency r = 0 \<and>
          readings (sc_processLine parseFloat v c) = keepLast1000 (readings c @ [r]) \<and>
          latencies (sc_processLine parseFloat v c) = keepLast1000 (latencies c @ [0])))
   \<and> (spt_processLine parseFloat v p = p \<or>
       (\<exists>r. latency r = 0 \<and>
          readings (spt_processLine parseFloat v p) = keepLast1000 (readings p @ [r]) \<and>
          latencies (spt_processLine parseFloat v p) = keepLast1000 (latencies p @ [0])))
   \<and> only_zero_latencies (sc_clearData c) \<and> only_zero_latencies (spt_clearData p)
   \<and> only_zero_latencies (SerialChannel io) \<and> sc_zero_metrics (SerialChannel io)
   \<and> only_zero_latencies (SerialPerformanceTest io)
   \<and> (only_zero_latencies c \<and> sc_zero_metrics c \<longrightarrow>
        sc_zero_metrics (snd (sc_readWeightContinuous parseFloat c)))
   \<and> (sc_zero_metrics c \<longrightarrow> sc_zero_metrics (sc_clearData c))"
proof -
  have keep: "only_zero_latencies c \<and> sc_zero_metrics c \<longrightarrow>
        sc_zero_metrics (snd (sc_readWeightContinuous parseFloat c))"
    using sc_readWeightContinuous_zero [of c parseFloat]
    by (auto simp: sc_zero_metrics_def sc_stats_def)
  have clear: "sc_zero_metrics c \<longrightarrow> sc_zero_metrics (sc_clearData c)"
    by (simp add: sc_zero_metrics_def sc_clearData_def sc_updateMetrics_def)
  have a: "sc_processLine parseFloat v c = c \<or>
       (\<exists>r. latency r = 0 \<and>
          readings (sc_processLine parseFloat v c) = keepLast1000 (readings c @ [r]) \<and>
          latencies (sc_processLine parseFloat v c) = keepLast1000 (latencies c @ [0]))"
    using sc_processLine_cases [of parseFloat v c] by blast
  have b: "only_zero_latencies (sc_clearData c)" "only_zero_latencies (spt_clearData p)"
    "only_zero_latencies (SerialChannel io)" "sc_zero_metrics (SerialChannel io)"
    "only_zero_latencies (SerialPerformanceTest io)"
    by (simp_all add: only_zero_latencies_def sc_clearData_def spt_clearData_def
        sc_updateMetrics_def spt_updateMetrics_def logMessage_def SerialChannel_def
        SerialPerformanceTest_def sc_zero_metrics_def)
  show ?thesis
    using sc_readWeightContinuous_zero [of c parseFloat] spt_readWeightOnce_zero [of p parseFloat]
      a spt_processLine_cases [of parseFloat v p] b keep clear
    by blast
qed

theorem wc_readings_have_zero_latency_witness:
  "only_zero_latencies ((connected (SerialChannel streaming))\<lparr>isReading := True\<rparr>)
   \<and> only_zero_latencies ((connected (SerialPerformanceTest streaming))\<lparr>isReading := True\<rparr>)
   \<and> only_zero_latencies (snd (sc_readWeightContinuous parseFloat_example
        ((connected (SerialChannel streaming))\<lparr>isReading := True\<rparr>)))
   \<and> only_zero_latencies (snd (spt_readWeightOnce parseFloat_example
        ((connected (SerialPerformanceTest streaming))\<lparr>isReading := True\<rparr>)))
   \<and> latencies (snd (sc_readWeightContinuous parseFloat_example
        ((connected (SerialChannel streaming))\<lparr>isReading := True\<rparr>))) = [0, 0]
   \<and> sc_zero_metrics (snd (sc_readWeightContinuous parseFloat_example
        ((connected (SerialChannel streaming))\<lparr>isReading := True\<rparr>)))
   \<and> latencies (snd (spt_readWeightOnce parseFloat_example
        ((connected (SerialPerformanceTest streaming))\<lparr>isReading := True\<rparr>))) = [0, 0]
   \<and> spt_zero_metrics (snd (spt_readWeightOnce parseFloat_example
        ((connected (SerialPerformanceTest streaming))\<lparr>isReading := True\<rparr>)))"
proof -
  let ?c = "(connected (SerialChannel streaming))\<lparr>isReading := True\<rparr>"
  let ?p = "(connected (SerialPerformanceTest streaming))\<lparr>isReading := True\<rparr>"
  have c: "only_zero_latencies ?c" and p: "only_zero_latencies ?p"
    by (simp_all add: only_zero_latencies_def connected_def SerialChannel_def
        SerialPerformanceTest_def)
  have "only_zero_latencies (snd (sc_readWeightContinuous parseFloat_example ?c))"
    and "only_zero_latencies (snd (spt_readWeightOnce parseFloat_example ?p))"
    using wc_readings_have_zero_latency [of ?c parseFloat_example ?p "'' 1.5 ''" quiet] c p by blast+
  moreover have "latencies (snd (sc_readWeightContinuous parseFloat_example ?c)) = [0, 0]"
    by code_simp
  moreover have "sc_zero_metrics (snd (sc_readWeightContinuous parseFloat_example ?c))"
    by code_simp
  moreover have "latencies (snd (spt_readWeightOnce parseFloat_example ?p)) = [0, 0]"
    by code_simp
  moreover have "spt_zero_metrics (snd (spt_readWeightOnce parseFloat_example ?p))"
    by code_simp
  ultimately show ?thesis using c p by simp
qed

section \<open>Properties of the channel protocol\<close>

lemma sc_sendCommand_identity:
  "identity (snd (sc_sendCommand c s)) = identity s"
  "handles (snd (sc_sendCommand c s)) = handles s"
  "isReading (snd (sc_sendCommand c s)) = isReading s"
  by (simp_all add: sc_sendCommand_def readResponse_def writer_write_def lineReader_read_def
      apiCall_def andThen_def tryCatch_def logMessage_def identity_def handles_def
      split: list.splits option.splits read_event.splits)

lemma spt_sendCommand_identity:
  "identity (snd (spt_sendCommand c s)) = identity s"
  "handles (snd (spt_sendCommand c s)) = handles s"
  "isReading (snd (spt_sendCommand c s)) = isReading s"
  "deviceIdText (snd (spt_sendCommand c s)) = deviceIdText s"
  "deviceCapacityText (snd (spt_sendCommand c s)) = deviceCapacityText s"
  "deviceUnitsText (snd (spt_sendCommand c s)) = deviceUnitsText s"
  by (simp_all add: spt_sendCommand_def readResponse_def writer_write_def lineReader_read_def
      apiCall_def andThen_def tryCatch_def logMessage_def identity_def handles_def
      split: list.splits option.splits read_event.splits)



text \<open>
  C2, as the code has it. When, in \<open>getDeviceInfo\<close>, the \<open>id\<close> command succeeds and the
  \<open>slc\<close> command then throws, \<open>getDeviceInfo\<close> returns normally and \<open>isConnected\<close> is
  what it was (true after \<open>connect\<close>): nothing is rolled back. In \<open>SerialChannel\<close> the
  \<open>deviceId\<close> field is overwritten with \<open>'Error'\<close>, and \<open>deviceCapacity\<close> and
  \<open>deviceUnits\<close> keep their earlier values (\<open>null\<close> after a first connect). In
  \<open>SerialPerformanceTest\<close> the \<open>deviceId\<close> field keeps the value that \<open>id\<close> returned,
  \<open>deviceCapacity\<close> and \<open>deviceUnits\<close> keep their earlier values, and the three device
  texts of the page are set to \<open>'Error'\<close>.
\<close>

theorem handshake_slc_failure:
  "(sc_sendCommand ''id'' c = (Normal v, c1) \<and>
    sc_sendCommand ''slc'' (logMessage (''Device ID: '' @ template v) Info (c1\<lparr>deviceId := v\<rparr>))
      = (Throw m, c2) \<longrightarrow>
      fst (sc_getDeviceInfo c) = Normal () \<and>
      isConnected (snd (sc_getDeviceInfo c)) = isConnected c \<and>
      deviceId (snd (sc_getDeviceInfo c)) = Some ''Error'' \<and>
      deviceCapacity (snd (sc_getDeviceInfo c)) = deviceCapacity c \<and>
      deviceUnits (snd (sc_getDeviceInfo c)) = deviceUnits c)
   \<and> (spt_sendCommand ''id'' p = (Normal v, p1) \<and>
    spt_sendCommand ''slc'' (logMessage (''Device ID: '' @ template v) Info
        (p1\<lparr>deviceId := v, deviceIdText := textContent v\<rparr>)) = (Throw m, p2) \<longrightarrow>
      fst (spt_getDeviceInfo p) = Normal () \<and>
      isConnected (snd (spt_getDeviceInfo p)) = isConnected p \<and>
      deviceId (snd (spt_getDeviceInfo p)) = v \<and>
      deviceCapacity (snd (spt_getDeviceInfo p)) = deviceCapacity p \<and>
      deviceUnits (snd (spt_getDeviceInfo p)) = deviceUnits p \<and>
      deviceIdText (snd (spt_getDeviceInfo p)) = ''Error'' \<and>
      deviceCapacityText (snd (spt_getDeviceInfo p)) = ''Error'' \<and>
      deviceUnitsText (snd (spt_getDeviceInfo p)) = ''Error'')"
proof (intro conjI impI)
  assume h: "sc_sendCommand ''id'' c = (Normal v, c1) \<and>
    sc_sendCommand ''slc'' (logMessage (''Device ID: '' @ template v) Info (c1\<lparr>deviceId := v\<rparr>))
      = (Throw m, c2)"
  let ?c1' = "logMessage (''Device ID: '' @ template v) Info (c1\<lparr>deviceId := v\<rparr>)"
  have eq: "sc_getDeviceInfo c =
      (Normal (), (logMessage (''Error getting device info: '' @ m) Error c2)\<lparr>deviceId := Some ''Error''\<rparr>)"
    using h by (simp add: sc_getDeviceInfo_def andThen_def tryCatch_def)
  have i1: "identity c1 = identity c"
    using sc_sendCommand_identity(1) [of "''id''" c] h by simp
  have i2: "identity c2 = identity ?c1'"
    using sc_sendCommand_identity(1) [of "''slc''" ?c1'] h by simp
  show "fst (sc_getDeviceInfo c) = Normal ()" by (simp add: eq)
  show "isConnected (snd (sc_getDeviceInfo c)) = isConnected c"
    "deviceId (snd (sc_getDeviceInfo c)) = Some ''Error''"
    "deviceCapacity (snd (sc_getDeviceInfo c)) = deviceCapacity c"
    "deviceUnits (snd (sc_getDeviceInfo c)) = deviceUnits c"
    using i1 i2 by (simp_all add: eq identity_def logMessage_def)
next
  assume h: "spt_sendCommand ''id'' p = (Normal v, p1) \<and>
    spt_sendCommand ''slc'' (logMessage (''Device ID: '' @ template v) Info
        (p1\<lparr>deviceId := v, deviceIdText := textContent v\<rparr>)) = (Throw m, p2)"
  let ?p1' = "logMessage (''Device ID: '' @ template v) Info
        (p1\<lparr>deviceId := v, deviceIdText := textContent v\<rparr>)"
  have eq: "spt_getDeviceInfo p =
      (Normal (), (logMessage (''Error getting device info: '' @ m) Error p2)
         \<lparr>deviceIdText := ''Error'', deviceCapacityText := ''Error'', deviceUnitsText := ''Error''\<rparr>)"
    using h by (simp add: spt_getDeviceInfo_def andThen_def tryCatch_def)
  have i1: "identity p1 = identity p"
    using spt_sendCommand_identity(1) [of "''id''" p] h by simp
  have i2: "identity p2 = identity ?p1'"
    using spt_sendCommand_identity(1) [of "''slc''" ?p1'] h by simp
  show "fst (spt_getDeviceInfo p) = Normal ()" by (simp add: eq)
  show "isConnected (snd (spt_getDeviceInfo p)) = isConnected p"
    "deviceId (snd (spt_getDeviceInfo p)) = v"
    "deviceCapacity (snd (spt_getDeviceInfo p)) = deviceCapacity p"
    "deviceUnits (snd (spt_getDeviceInfo p)) = deviceUnits p"
    "deviceIdText (snd (spt_getDeviceInfo p)) = ''Error''"
    "deviceCapacityText (snd (spt_getDeviceInfo p)) = ''Error''"
    "deviceUnitsText (snd (spt_getDeviceInfo p)) = ''Error''"
    using i1 i2 by (simp_all add: eq identity_def logMessage_def)
qed

theorem handshake_slc_failure_witness:
  "fst (sc_sendCommand ''id'' (connected (SerialChannel slc_fails))) = Normal (Some ''SCALE-7'')
   \<and> fst (sc_sendCommand ''slc''
        (logMessage (''Device ID: '' @ template (Some ''SCALE-7'')) Info
           ((snd (sc_sendCommand ''id'' (connected (SerialChannel slc_fails))))
              \<lparr>deviceId := Some ''SCALE-7''\<rparr>))) = Throw ''timeout''
   \<and> fst (sc_getDeviceInfo (connected (SerialChannel slc_fails))) = Normal ()
   \<and> isConnected (snd (sc_getDeviceInfo (connected (SerialChannel slc_fails))))
   \<and> deviceId (snd (sc_getDeviceInfo (connected (SerialChannel slc_fails)))) = Some ''Error''
   \<and> fst (spt_sendCommand ''id'' (connected (SerialPerformanceTest slc_fails))) = Normal (Some ''SCALE-7'')
   \<and> fst (spt_sendCommand ''slc''
        (logMessage (''Device ID: '' @ template (Some ''SCALE-7'')) Info
           ((snd (spt_sendCommand ''id'' (connected (SerialPerformanceTest slc_fails))))
              \<lparr>deviceId := Some ''SCALE-7'', deviceIdText := textContent (Some ''SCALE-7'')\<rparr>)))
        = Throw ''timeout''
   \<and> isConnected (snd (spt_getDeviceInfo (connected (SerialPerformanceTest slc_fails))))
   \<and> deviceId (snd (spt_getDeviceInfo (connected (SerialPerformanceTest slc_fails)))) = Some ''SCALE-7''
   \<and> deviceCapacityText (snd (spt_getDeviceInfo (connected (SerialPerformanceTest slc_fails)))) = ''Error''"
proof -
  let ?c = "connected (SerialChannel slc_fails)"
  let ?c1 = "snd (sc_sendCommand ''id'' ?c)"
  let ?c1' = "logMessage (''Device ID: '' @ template (Some ''SCALE-7'')) Info (?c1\<lparr>deviceId := Some ''SCALE-7''\<rparr>)"
  let ?c2 = "snd (sc_sendCommand ''slc'' ?c1')"
  let ?p = "connected (SerialPerformanceTest slc_fails)"
  let ?p1 = "snd (spt_sendCommand ''id'' ?p)"
  let ?p1' = "logMessage (''Device ID: '' @ template (Some ''SCALE-7'')) Info
      (?p1\<lparr>deviceId := Some ''SCALE-7'', deviceIdText := textContent (Some ''SCALE-7'')\<rparr>)"
  let ?p2 = "snd (spt_sendCommand ''slc'' ?p1')"
  have a: "fst (sc_sendCommand ''id'' ?c) = Normal (Some ''SCALE-7'')"
    and b: "fst (sc_sendCommand ''slc'' ?c1') = Throw ''timeout''"
    and a': "fst (spt_sendCommand ''id'' ?p) = Normal (Some ''SCALE-7'')"
    and b': "fst (spt_sendCommand ''slc'' ?p1') = Throw ''timeout''"
    by code_simp+
  have con: "isConnected ?c" "isConnected ?p"
    by (simp_all add: connected_def)
  have hc: "sc_sendCommand ''id'' ?c = (Normal (Some ''SCALE-7''), ?c1) \<and>
      sc_sendCommand ''slc'' ?c1' = (Throw ''timeout'', ?c2)"
    using a b by (simp only: prod_eq_iff fst_conv snd_conv simp_thms)
  have hp: "spt_sendCommand ''id'' ?p = (Normal (Some ''SCALE-7''), ?p1) \<and>
      spt_sendCommand ''slc'' ?p1' = (Throw ''timeout'', ?p2)"
    using a' b' by (simp only: prod_eq_iff fst_conv snd_conv simp_thms)
  note inst = handshake_slc_failure [of ?c "Some ''SCALE-7''" ?c1 "''timeout''" ?c2 ?p ?p1 ?p2]
  note sc_part = inst [THEN conjunct1, THEN mp, OF hc]
  note spt_part = inst [THEN conjunct2, THEN mp, OF hp]
  from sc_part con(1) have 1: "fst (sc_getDeviceInfo ?c) = Normal ()"
    "isConnected (snd (sc_getDeviceInfo ?c))" "deviceId (snd (sc_getDeviceInfo ?c)) = Some ''Error''"
    by (simp_all only: simp_thms)
  from spt_part con(2) have 2: "isConnected (snd (spt_getDeviceInfo ?p))"
    "deviceId (snd (spt_getDeviceInfo ?p)) = Some ''SCALE-7''"
    "deviceCapacityText (snd (spt_getDeviceInfo ?p)) = ''Error''"
    by (simp_all only: simp_thms)
  from a b a' b' 1 2 show ?thesis by (intro conjI) (simp_all only: simp_thms)
qed

text \<open>
  C2 as stated fails: with the answer \<open>SCALE-7\<close> to \<open>id\<close> and a failing read for
  \<open>slc\<close>, \<open>SerialChannel\<close> ends with \<open>deviceId = 'Error'\<close> and
  \<open>deviceCapacity = null\<close>; \<open>SerialPerformanceTest\<close> ends with \<open>deviceCapacity = null\<close>
  and shows \<open>'Error'\<close> for the device id. Both stay connected.
\<close>

theorem handshake_slc_failure_fields:
  "isConnected (snd (sc_getDeviceInfo (connected (SerialChannel slc_fails))))
   \<and> deviceId (snd (sc_getDeviceInfo (connected (SerialChannel slc_fails)))) = Some ''Error''
   \<and> deviceCapacity (snd (sc_getDeviceInfo (connected (SerialChannel slc_fails)))) = None
   \<and> logged (snd (sc_getDeviceInfo (connected (SerialChannel slc_fails)))) =
       [(Debug, ''Command sent: id''), (Info, ''Device ID: SCALE-7''), (Debug, ''Command sent: slc''),
        (Error, ''Error reading response: timeout''), (Error, ''Error sending command slc: timeout''),
        (Error, ''Error getting device info: timeout'')]
   \<and> isConnected (snd (spt_getDeviceInfo (connected (SerialPerformanceTest slc_fails))))
   \<and> deviceId (snd (spt_getDeviceInfo (connected (SerialPerformanceTest slc_fails)))) = Some ''SCALE-7''
   \<and> deviceCapacity (snd (spt_getDeviceInfo (connected (SerialPerformanceTest slc_fails)))) = None
   \<and> deviceIdText (snd (spt_getDeviceInfo (connected (SerialPerformanceTest slc_fails)))) = ''Error''"
  by code_simp







end
